theory Spec2Isabelle
  imports Main
begin

section \<open>Data model\<close>

text \<open>
  A Go \<open>error\<close> is represented by its message; \<open>nil\<close> is the right injection of a sum
  (\<open>Inr ()\<close> for a function that returns only an error).
\<close>

type_synonym error = string

text \<open>\<open>patch.go\<close>, lines 18-31.\<close>

record Mount =
  HostPath :: string
  MountPath :: string

record patchValues =
  ChangeCause :: string
  CreatedBy :: string
  Deployment :: string
  Container :: string
  ConfigMapMount :: string
  Mounts :: "Mount list"
  Image :: string

text \<open>
  The fields of the Kubernetes type \<open>v1.Deployment\<close> that the code reads: the name, the
  namespace, the annotations of the pod template (\<open>Spec.Template.ObjectMeta.Annotations\<close>, a Go
  map read with \<open>map_of\<close>) and the names of the containers of the pod template.
\<close>

record v1_Deployment =
  Name :: string
  Namespace :: string
  Annotations :: "(string \<times> string) list"
  Containers :: "string list"

text \<open>
  The receiver \<open>g\<close>. Its gateways (\<open>g.kubeCmd\<close>, \<open>g.dockerCmd\<close>) and its logger (\<open>g.l\<close>) are
  the environment and the state below; what is left is the deployment cached in memory.
\<close>

record Grapple =
  deployment :: v1_Deployment

text \<open>
  The commands that the code builds on its two gateways and then executes with \<open>.Run(ctx)\<close>,
  each with the arguments the code passes.
\<close>

datatype Cmd =
    DeleteConfigMap string
  | CreateConfigMap string "(string \<times> string) list"
  | WaitForRollout string string
  | RolloutUndo string int
  | UpdateChangeCause string string
  | PatchDeployment string string
  | ImageInspect "string list"
  | Build string "string list"
  | Push string string

text \<open>
  Everything the code calls and that lives outside \<open>patch.go\<close>, as a parameter: the two
  gateways, the standard library and the package constants. \<open>'w\<close> is the state of the world
  (cluster, image store, file system); a call may read and change it.
  \<open>GetDeployment\<close> has the shape of the function of that name in \<open>kube.go\<close> (lines
  130-145): the error of the command or of the decoding, or else the decoded deployment.
  \<open>Run\<close> executes a command and returns its output or its error. \<open>ValidateContainer\<close>,
  \<open>json.Marshal\<close> and the read of an embedded file depend on their arguments only;
  \<open>renderTemplate\<close> reads the template file; \<open>quote\<close> is the verb \<open>%q\<close> of \<open>fmt\<close>.
\<close>

record 'w env =
  GetDeployment :: "string \<Rightarrow> 'w \<Rightarrow> (error + v1_Deployment) \<times> 'w"
  GetLatestRevision :: "string \<Rightarrow> 'w \<Rightarrow> (error + int) \<times> 'w"
  ValidateContainer :: "v1_Deployment \<Rightarrow> string \<Rightarrow> error + string"
  Run :: "Cmd \<Rightarrow> 'w \<Rightarrow> (error + string) \<times> 'w"
  json_Marshal :: "v1_Deployment \<Rightarrow> error + string"
  bindata_ReadFile :: "string \<Rightarrow> error + string"
  os_TempDir :: string
  os_Mkdir :: "string \<Rightarrow> nat \<Rightarrow> 'w \<Rightarrow> 'w"
  os_WriteFile :: "string \<Rightarrow> string \<Rightarrow> nat \<Rightarrow> 'w \<Rightarrow> (error + unit) \<times> 'w"
  renderTemplate :: "string \<Rightarrow> patchValues \<Rightarrow> 'w \<Rightarrow> error + string"
  path_Join :: "string list \<Rightarrow> string"
  filepath_Join :: "string list \<Rightarrow> string"
  quote :: "string \<Rightarrow> string"
  defaultPatchChangeCause :: string
  defaultPatchCreator :: string
  defaultConfigMapMount :: string
  createdByAnnotation :: string
  defaultConfigMapDeploymentKey :: string
  defaultConfigMapDeploymentSuffix :: string
  defaultWaitTimeout :: string
  defaultTag :: string
  defaultPatchImageSuffix :: string
  devDeploymentPatchFile :: string

text \<open>
  What a run leaves behind: the world, the transcript of the calls on the two gateways with
  their replies, in the order of the calls, and the lines written to the logger. (The
  validation of the container and the calls on the file system are not in the transcript.)
\<close>

datatype event =
    Fetched string "error + v1_Deployment"
  | Revision string "error + int"
  | Ran Cmd "error + string"

datatype level = Info | Warn

record 'w state =
  world :: 'w
  trace :: "event list"
  logs :: "(level \<times> string) list"

definition logline :: "level \<Rightarrow> string \<Rightarrow> 'w state \<Rightarrow> 'w state" where
  "logline l msg s = s\<lparr>logs := logs s @ [(l, msg)]\<rparr>"

definition callGetDeployment ::
  "'w env \<Rightarrow> string \<Rightarrow> 'w state \<Rightarrow> (error + v1_Deployment) \<times> 'w state" where
  "callGetDeployment e n s =
     (case GetDeployment e n (world s) of
        (r, w) \<Rightarrow> (r, s\<lparr>world := w, trace := trace s @ [Fetched n r]\<rparr>))"

definition callGetLatestRevision ::
  "'w env \<Rightarrow> string \<Rightarrow> 'w state \<Rightarrow> (error + int) \<times> 'w state" where
  "callGetLatestRevision e n s =
     (case GetLatestRevision e n (world s) of
        (r, w) \<Rightarrow> (r, s\<lparr>world := w, trace := trace s @ [Revision n r]\<rparr>))"

definition callRun :: "'w env \<Rightarrow> Cmd \<Rightarrow> 'w state \<Rightarrow> (error + string) \<times> 'w state" where
  "callRun e c s =
     (case Run e c (world s) of
        (r, w) \<Rightarrow> (r, s\<lparr>world := w, trace := trace s @ [Ran c r]\<rparr>))"

section \<open>Formatting\<close>

text \<open>The verb \<open>%v\<close> of \<open>fmt\<close> on an integer: its decimal digits, with a sign when negative.\<close>

definition digit :: "nat \<Rightarrow> char" where
  "digit n = ''0123456789'' ! n"

function show_nat :: "nat \<Rightarrow> string" where
  "show_nat n = (if n < 10 then [digit n] else show_nat (n div 10) @ [digit (n mod 10)])"
  by pat_completeness auto
termination
  by (relation "measure id") auto

definition show_int :: "int \<Rightarrow> string" where
  "show_int i = (if i < 0 then CHR ''-'' # show_nat (nat (- i)) else show_nat (nat i))"

text \<open>
  Go's \<open>int\<close> is 64 bits wide on the platforms the tool supports; \<open>revision - 1\<close> wraps at the
  least value.
\<close>

definition int_dec :: "int \<Rightarrow> int" where
  "int_dec i = (if i = - 9223372036854775808 then 9223372036854775807 else i - 1)"

section \<open>The code of \<open>patch.go\<close>\<close>

text \<open>Lines 33-43.\<close>

definition newPatchValues ::
  "'w env \<Rightarrow> string \<Rightarrow> string \<Rightarrow> string \<Rightarrow> Mount list \<Rightarrow> patchValues" where
  "newPatchValues e deployment' container image' mounts =
     \<lparr>ChangeCause = defaultPatchChangeCause e,
      CreatedBy = defaultPatchCreator e,
      Deployment = deployment',
      Container = container,
      ConfigMapMount = defaultConfigMapMount e,
      Mounts = mounts,
      Image = image'\<rparr>"

text \<open>Lines 195-197.\<close>

definition DeploymentConfigMapName :: "'w env \<Rightarrow> Grapple \<Rightarrow> string" where
  "DeploymentConfigMapName e g = Name (deployment g) @ defaultConfigMapDeploymentSuffix e"

text \<open>Lines 199-204.\<close>

definition patchedImageName :: "'w env \<Rightarrow> Grapple \<Rightarrow> string \<Rightarrow> string" where
  "patchedImageName e g repo =
     (if repo \<noteq> '''' then path_Join e [repo, Name (deployment g)] @ defaultPatchImageSuffix e
      else Name (deployment g) @ defaultPatchImageSuffix e)"

text \<open>
  Lines 158-165. The test of line 164 on the fetched deployment is \<open>marked\<close>; \<open>isPatched\<close>
  returns a boolean and nothing else, whatever the fetch did.
\<close>

definition marked :: "'w env \<Rightarrow> v1_Deployment \<Rightarrow> bool" where
  "marked e d =
     (case map_of (Annotations d) (createdByAnnotation e) of
        None \<Rightarrow> False
      | Some createdBy \<Rightarrow> createdBy = defaultPatchCreator e)"

definition isPatched :: "'w env \<Rightarrow> Grapple \<Rightarrow> 'w state \<Rightarrow> bool \<times> 'w state" where
  "isPatched e g s =
     (case callGetDeployment e (Name (deployment g)) s of
        (Inl err, s') \<Rightarrow> (False, s')
      | (Inr d, s') \<Rightarrow> (marked e d, s'))"

text \<open>
  Lines 172-192: the loop of \<open>rollback\<close>, from the value of \<open>i\<close> at the loop test on. The
  error of \<open>DeleteConfigMap\<close> is logged and dropped (lines 175-178).
\<close>

function rollback_loop ::
  "'w env \<Rightarrow> Grapple \<Rightarrow> int \<Rightarrow> 'w state \<Rightarrow> (error + unit) \<times> 'w state" where
  "rollback_loop e g i s =
     (if 0 \<le> i then
        (case callRun e (DeleteConfigMap (DeploymentConfigMapName e g))
                (logline Info (''removing configmap '' @ DeploymentConfigMapName e g) s) of
           (r, s1) \<Rightarrow>
        (case callRun e (RolloutUndo (Name (deployment g)) i)
                (logline Info (''rolling back deployment '' @ Name (deployment g)
                     @ '' to revision '' @ show_int i)
                   (case r of
                      Inl err \<Rightarrow>
                        logline Warn ''invalid patch state! label present but no configmap found'' s1
                    | Inr out \<Rightarrow> s1)) of
           (Inl err, s2) \<Rightarrow> (Inl err, s2)
         | (Inr out, s2) \<Rightarrow>
        (case isPatched e g s2 of
           (False, s3) \<Rightarrow>
             (case callRun e (UpdateChangeCause (Name (deployment g))
                     (''rollback to '' @ show_int i)) s3 of
                (Inl err, s4) \<Rightarrow> (Inl err, s4)
              | (Inr out, s4) \<Rightarrow> (Inr (), s4))
         | (True, s3) \<Rightarrow> rollback_loop e g (i - 1) s3)))
      else
        (Inl (''couldnt rollback deployment '' @ Name (deployment g) @ '' into unpatched state''),
         s))"
  by pat_completeness auto
termination
  by (relation "measure (\<lambda>(e, g, i, s). nat (i + 1))") auto

text \<open>Lines 167-171, then the loop.\<close>

definition rollback :: "'w env \<Rightarrow> Grapple \<Rightarrow> 'w state \<Rightarrow> (error + unit) \<times> 'w state" where
  "rollback e g s =
     (case callGetLatestRevision e (Name (deployment g)) s of
        (Inl err, s1) \<Rightarrow> (Inl err, s1)
      | (Inr revision, s1) \<Rightarrow> rollback_loop e g (int_dec revision) s1)"

text \<open>Lines 150-156.\<close>

definition Rollback :: "'w env \<Rightarrow> Grapple \<Rightarrow> 'w state \<Rightarrow> (error + unit) \<times> 'w state" where
  "Rollback e g s =
     (case isPatched e g (logline Info ''rolling back'' s) of
        (False, s1) \<Rightarrow> (Inl ''deployment not patched, stopping rollback'', s1)
      | (True, s1) \<Rightarrow> rollback e g s1)"

text \<open>
  \<open>Patch\<close> (lines 45-148) is modelled in parts, in the order of the source; each part returns
  the error, if any, and the state it leaves. The constants of lines 87-92 are written where
  they are used (\<open>perm\<close> is \<open>0700\<close>, that is 448).

  Lines 57-77: the platform check and the snapshot. The result of \<open>DeleteConfigMap\<close>
  (line 72) is dropped.
\<close>

definition snapshotDeployment ::
  "'w env \<Rightarrow> Grapple \<Rightarrow> string \<Rightarrow> string \<Rightarrow> 'w state \<Rightarrow> (error + unit) \<times> 'w state" where
  "snapshotDeployment e g image' platform s1 =
     (case callRun e (ImageInspect [''-f'', ''{{.Os}}/{{.Architecture}}'', image']) s1 of
        (Inl err, s2) \<Rightarrow> (Inl err, s2)
      | (Inr imagePlatform, s2) \<Rightarrow>
     if platform \<noteq> imagePlatform then
       (Inl (''Provided image '' @ quote e image' @ '' was built for platform ''
             @ quote e imagePlatform @ '', and configured platform is '' @ quote e platform
             @ '', please rebuild for correct platform''), s2)
     else
     (let s3 = logline Info ''creating a configmap with deployment data'' s2 in
     (case json_Marshal e (deployment g) of
        Inl err \<Rightarrow> (Inl err, s3)
      | Inr bs \<Rightarrow>
     (case callRun e (DeleteConfigMap (DeploymentConfigMapName e g)) s3 of
        (dropped, s4) \<Rightarrow>
     (case callRun e (CreateConfigMap (DeploymentConfigMapName e g)
                        [(defaultConfigMapDeploymentKey e, bs)]) s4 of
        (Inl err, s5) \<Rightarrow> (Inl err, s5)
      | (Inr out, s5) \<Rightarrow> (Inr (), s5))))))"

text \<open>
  Lines 79-112: waiting for the rollout and writing the two embedded files to the temporary
  directory. The result of \<open>os.Mkdir\<close> (line 104) is dropped.
\<close>

definition theHookPath :: "'w env \<Rightarrow> string" where
  "theHookPath e = path_Join e [os_TempDir e, ''the-hook'']"

definition extractPatchFiles :: "'w env \<Rightarrow> Grapple \<Rightarrow> 'w state \<Rightarrow> (error + unit) \<times> 'w state" where
  "extractPatchFiles e g s5 =
     (case callRun e (WaitForRollout (Name (deployment g)) (defaultWaitTimeout e))
             (logline Info ''waiting for deployment to get ready'' s5) of
        (Inl err, s6) \<Rightarrow> (Inl err, s6)
      | (Inr out, s6) \<Rightarrow>
     (let s7 = logline Info ''extracting patch files'' s6 in
     (case bindata_ReadFile e (filepath_Join e [''the-hook'', ''Dockerfile'']) of
        Inl err \<Rightarrow> (Inl err, s7)
      | Inr patchDockerfile \<Rightarrow>
     (case bindata_ReadFile e (filepath_Join e [''the-hook'', ''deployment-patch.yaml'']) of
        Inl err \<Rightarrow> (Inl err, s7)
      | Inr deploymentPatch \<Rightarrow>
     (let s8 = s7\<lparr>world := os_Mkdir e (theHookPath e) 448 (world s7)\<rparr> in
     (case os_WriteFile e (filepath_Join e [theHookPath e, ''Dockerfile'']) patchDockerfile 448
             (world s8) of
        (Inl err, w9) \<Rightarrow> (Inl err, s8\<lparr>world := w9\<rparr>)
      | (Inr u9, w9) \<Rightarrow>
     (case os_WriteFile e (filepath_Join e [theHookPath e, ''deployment-patch.yaml''])
             deploymentPatch 448 w9 of
        (Inl err, w10) \<Rightarrow> (Inl err, s8\<lparr>world := w10\<rparr>)
      | (Inr u10, w10) \<Rightarrow> (Inr (), s8\<lparr>world := w10\<rparr>))))))))"

text \<open>Lines 114-147: building and pushing the patch image, rendering and applying the patch.\<close>

definition buildAndPatch ::
  "'w env \<Rightarrow> Grapple \<Rightarrow> string \<Rightarrow> string \<Rightarrow> string \<Rightarrow> string \<Rightarrow> Mount list \<Rightarrow> 'w state
     \<Rightarrow> (error + unit) \<times> 'w state" where
  "buildAndPatch e g repo image' platform container mounts s10 =
     (let patchedImage = patchedImageName e g repo;
          completePatchedImage = patchedImage @ '':'' @ defaultTag e
      in
     (case callRun e (Build (theHookPath e)
                        [''--build-arg'', ''IMAGE='' @ image', ''-t'', completePatchedImage,
                         ''--platform'', platform])
             (logline Info (''building patch image '' @ completePatchedImage) s10) of
        (Inl err, s11) \<Rightarrow> (Inl err, s11)
      | (Inr out, s11) \<Rightarrow>
     (case (if repo \<noteq> ''''
            then (case callRun e (Push patchedImage (defaultTag e))
                         (logline Info (''pushing patch image '' @ completePatchedImage) s11) of
                    (Inl err, s12) \<Rightarrow> (Inl err, s12)
                  | (Inr out, s12) \<Rightarrow> (Inr (), s12))
            else (Inr (), s11)) of
        (Inl err, s12) \<Rightarrow> (Inl err, s12)
      | (Inr u12, s12) \<Rightarrow>
     (let s13 = logline Info ''rendering deployment patch template'' s12 in
     (case renderTemplate e (path_Join e [theHookPath e, devDeploymentPatchFile e])
             (newPatchValues e (Name (deployment g)) container completePatchedImage mounts)
             (world s13) of
        Inl err \<Rightarrow> (Inl err, s13)
      | Inr patch \<Rightarrow>
     (case callRun e (PatchDeployment patch (Name (deployment g)))
             (logline Info (''patching deployment '' @ Name (deployment g)) s13) of
        (Inl err, s14) \<Rightarrow> (Inl err, s14)
      | (Inr out, s14) \<Rightarrow> (Inr (), s14)))))))"

text \<open>
  Lines 53-147, what follows the guard: the validation of the container (lines 53-55), then the
  three parts. \<open>ValidateContainer\<close> receives a pointer to \<open>container\<close> and may set it, so it
  returns the name to use.
\<close>

definition applyPatch ::
  "'w env \<Rightarrow> Grapple \<Rightarrow> string \<Rightarrow> string \<Rightarrow> string \<Rightarrow> string \<Rightarrow> Mount list \<Rightarrow> 'w state
     \<Rightarrow> (error + unit) \<times> 'w state" where
  "applyPatch e g repo image' platform container mounts s1 =
     (case ValidateContainer e (deployment g) container of
        Inl err \<Rightarrow> (Inl err, s1)
      | Inr container' \<Rightarrow>
     (case snapshotDeployment e g image' platform s1 of
        (Inl err, s5) \<Rightarrow> (Inl err, s5)
      | (Inr u5, s5) \<Rightarrow>
     (case extractPatchFiles e g s5 of
        (Inl err, s10) \<Rightarrow> (Inl err, s10)
      | (Inr u10, s10) \<Rightarrow>
          buildAndPatch e g repo image' platform container' mounts s10)))"

text \<open>Lines 45-52, the guard, then the rest.\<close>

definition Patch ::
  "'w env \<Rightarrow> Grapple \<Rightarrow> string \<Rightarrow> string \<Rightarrow> string \<Rightarrow> string \<Rightarrow> Mount list \<Rightarrow> 'w state
     \<Rightarrow> (error + unit) \<times> 'w state" where
  "Patch e g repo image' platform container mounts s =
     (case isPatched e g s of
        (True, s0) \<Rightarrow>
          (case rollback e g
                  (logline Warn ''deployment already patched, rolling back first'' s0) of
             (Inl err, s1) \<Rightarrow> (Inl err, s1)
           | (Inr u, s1) \<Rightarrow> applyPatch e g repo image' platform container mounts s1)
      | (False, s0) \<Rightarrow> applyPatch e g repo image' platform container mounts s0)"

text \<open>
  \<open>PlatformSuggest\<close> of the configuration prompt (the second source file, lines 106-108): the
  texts it offers for the platform, whatever the document and the configuration.
\<close>

definition PlatformSuggest :: "string list" where
  "PlatformSuggest = [''linux/amd64'', ''linux/arm64'']"

section \<open>Reading a run\<close>

text \<open>What \<open>isPatched\<close> answers on a reply of \<open>GetDeployment\<close> (lines 160-164).\<close>

definition patched_reply :: "'w env \<Rightarrow> error + v1_Deployment \<Rightarrow> bool" where
  "patched_reply e r = (case r of Inl err \<Rightarrow> False | Inr d \<Rightarrow> marked e d)"

text \<open>The answers of the checks of the patched state in a transcript, in order.\<close>

fun checks :: "'w env \<Rightarrow> event list \<Rightarrow> bool list" where
  "checks e [] = []"
| "checks e (Fetched n r # evs) = patched_reply e r # checks e evs"
| "checks e (ev # evs) = checks e evs"

text \<open>The revisions of the undo commands in a transcript, in order.\<close>

fun undos :: "event list \<Rightarrow> int list" where
  "undos [] = []"
| "undos (Ran (RolloutUndo n i) r # evs) = i # undos evs"
| "undos (ev # evs) = undos evs"

text \<open>Every undo that succeeded is followed at once by a fetch of the same deployment.\<close>

fun rechecked :: "event list \<Rightarrow> bool" where
  "rechecked [] = True"
| "rechecked (Ran (RolloutUndo n i) (Inr out) # evs) =
     ((case evs of Fetched n' r # evs' \<Rightarrow> n' = n | _ \<Rightarrow> False) \<and> rechecked evs)"
| "rechecked (ev # evs) = rechecked evs"

text \<open>
  The commands that change the cluster or the image store (inspecting an image and waiting
  for a rollout read), and among them those that undo what a patch did: deleting the snapshot
  and undoing a revision.
\<close>

fun mutating :: "event \<Rightarrow> bool" where
  "mutating (Ran (ImageInspect args) r) = False"
| "mutating (Ran (WaitForRollout n t) r) = False"
| "mutating (Ran c r) = True"
| "mutating ev = False"

fun cleanup :: "event \<Rightarrow> bool" where
  "cleanup (Ran (DeleteConfigMap n) r) = True"
| "cleanup (Ran (RolloutUndo n i) r) = True"
| "cleanup ev = False"

fun created :: "event \<Rightarrow> bool" where
  "created (Ran (CreateConfigMap n d) (Inr out)) = True"
| "created ev = False"

fun creating :: "event \<Rightarrow> bool" where
  "creating (Ran (CreateConfigMap n d) r) = True"
| "creating ev = False"

fun building :: "event \<Rightarrow> bool" where
  "building (Ran (Build dir args) r) = True"
| "building ev = False"

fun applying :: "event \<Rightarrow> bool" where
  "applying (Ran (PatchDeployment patch n) r) = True"
| "applying ev = False"

text \<open>The image inspections in a transcript, and the events that a rollback can leave.\<close>

fun inspected :: "event \<Rightarrow> bool" where
  "inspected (Ran (ImageInspect args) r) = True"
| "inspected ev = False"

fun rolling :: "event \<Rightarrow> bool" where
  "rolling (Fetched n r) = True"
| "rolling (Revision n r) = True"
| "rolling (Ran (DeleteConfigMap n) r) = True"
| "rolling (Ran (RolloutUndo n i) r) = True"
| "rolling (Ran (UpdateChangeCause n c) r) = True"
| "rolling ev = False"

text \<open>What follows the first snapshot creation that succeeded.\<close>

definition after_created :: "event list \<Rightarrow> event list" where
  "after_created evs = tl (dropWhile (\<lambda>ev. \<not> created ev) evs)"

text \<open>The snapshot deletions that failed, and the warnings of line 177.\<close>

fun failed_deletes :: "event list \<Rightarrow> nat" where
  "failed_deletes [] = 0"
| "failed_deletes (Ran (DeleteConfigMap n) (Inl err) # evs) = Suc (failed_deletes evs)"
| "failed_deletes (ev # evs) = failed_deletes evs"

definition warnings :: "(level \<times> string) list \<Rightarrow> nat" where
  "warnings ls =
     length (filter (\<lambda>l. l = (Warn, ''invalid patch state! label present but no configmap found''))
       ls)"

text \<open>
  The lines that one iteration of the loop logs (lines 173-179), given the reply of the
  deletion.
\<close>

definition iteration_logs ::
  "'w env \<Rightarrow> Grapple \<Rightarrow> int \<Rightarrow> error + string \<Rightarrow> (level \<times> string) list" where
  "iteration_logs e g i rd =
     (Info, ''removing configmap '' @ DeploymentConfigMapName e g)
     # (case rd of
          Inl err \<Rightarrow> [(Warn, ''invalid patch state! label present but no configmap found'')]
        | Inr out \<Rightarrow> [])
     @ [(Info, ''rolling back deployment '' @ Name (deployment g) @ '' to revision ''
               @ show_int i)]"

text \<open>
  The three ways in which a walk that starts at revision \<open>i\<close> can end, read from its
  transcript \<open>new\<close> and its result \<open>res\<close>: it stops at the first check that answers "not
  patched" and annotates; it runs out of revisions; an undo fails.
\<close>

definition walked :: "'w env \<Rightarrow> Grapple \<Rightarrow> int \<Rightarrow> event list \<Rightarrow> error + unit \<Rightarrow> bool" where
  "walked e g i new res \<longleftrightarrow>
     rechecked new \<and>
     ((\<exists>k rep. k < nat (i + 1) \<and> checks e new = replicate k True @ [False] \<and>
         undos new = take (Suc k) (rev [0..i]) \<and>
         last new = Ran (UpdateChangeCause (Name (deployment g))
                           (''rollback to '' @ show_int (i - int k))) rep \<and>
         res = (case rep of Inl err \<Rightarrow> Inl err | Inr out \<Rightarrow> Inr ()))
      \<or> (checks e new = replicate (nat (i + 1)) True \<and> undos new = rev [0..i] \<and>
          res = Inl (''couldnt rollback deployment '' @ Name (deployment g)
                     @ '' into unpatched state''))
      \<or> (\<exists>k err. k < nat (i + 1) \<and> checks e new = replicate k True \<and>
          undos new = take (Suc k) (rev [0..i]) \<and>
          last new = Ran (RolloutUndo (Name (deployment g)) (i - int k)) (Inl err) \<and>
          res = Inl err))"

text \<open>
  The environment in which every snapshot deletion replies \<open>r\<close>, and does to the world what
  it does in \<open>e\<close>.
\<close>

definition deletion_replies :: "error + string \<Rightarrow> 'w env \<Rightarrow> 'w env" where
  "deletion_replies r e =
     e\<lparr>Run := (\<lambda>c w. case c of DeleteConfigMap n \<Rightarrow> (r, snd (Run e c w)) | _ \<Rightarrow> Run e c w)\<rparr>"

text \<open>What an operation returns and the world it leaves, without the transcript and the log.\<close>

definition outcome :: "(error + unit) \<times> 'w state \<Rightarrow> (error + unit) \<times> 'w" where
  "outcome x = (fst x, world (snd x))"

text \<open>A state with nothing recorded yet.\<close>

definition start :: "'w \<Rightarrow> 'w state" where
  "start w = \<lparr>world = w, trace = [], logs = []\<rparr>"

section \<open>The gateway's contract\<close>

text \<open>
  Modelled from the spec: the Cluster Command Gateway (\<open>g.kubeCmd\<close>), the patch template
  \<open>the-hook/deployment-patch.yaml\<close> and \<open>renderTemplate\<close> are not in the source files. The
  spec says of them: "get workload by name/namespace" is a read; the rendered document, "when
  applied, ... writes the patch marker annotation" (with the creator of the Patch Values);
  "update change-cause annotation" writes that annotation, not the marker.
\<close>

definition gateway_contract :: "'w env \<Rightarrow> bool" where
  "gateway_contract e \<longleftrightarrow>
     (\<forall>n w. snd (GetDeployment e n w) = w) \<and>
     (\<forall>p v w patch n out w'.
        renderTemplate e p v w = Inr patch \<longrightarrow>
        Run e (PatchDeployment patch n) w = (Inr out, w') \<longrightarrow>
        (\<exists>d. fst (GetDeployment e n w') = Inr d \<and>
           map_of (Annotations d) (createdByAnnotation e) = Some (CreatedBy v))) \<and>
     (\<forall>n c w out w'.
        Run e (UpdateChangeCause n c) w = (Inr out, w') \<longrightarrow>
        patched_reply e (fst (GetDeployment e n w')) = patched_reply e (fst (GetDeployment e n w)))"

section \<open>A reference cluster\<close>

text \<open>
  Modelled from the spec: a cluster, an image store and a file system for the gateways, which
  are not in the source files. A workload has the annotations and containers of its pod
  template and its revision history (revision \<open>i\<close> is the template at index \<open>i\<close>, the latest
  one last); the snapshot objects are a list of named key/value objects; \<open>denied\<close> holds the
  commands that the cluster refuses. The package constants have example values.
\<close>

record workload =
  template :: "(string \<times> string) list"
  containers :: "string list"
  history :: "(string \<times> string) list list"
  changeCause :: string

record cluster =
  workloads :: "string \<rightharpoonup> workload"
  configmaps :: "(string \<times> (string \<times> string) list) list"
  images :: "(string \<times> string) list"
  files :: "(string \<times> string) list"
  denied :: "Cmd \<Rightarrow> bool"

definition markerKey :: string where
  "markerKey = ''gograpple/created-by''"

definition set_annotation ::
  "string \<Rightarrow> string \<Rightarrow> (string \<times> string) list \<Rightarrow> (string \<times> string) list" where
  "set_annotation k v anns = (k, v) # filter (\<lambda>a. fst a \<noteq> k) anns"

definition kube_GetDeployment :: "string \<Rightarrow> cluster \<Rightarrow> (error + v1_Deployment) \<times> cluster" where
  "kube_GetDeployment n w =
     (case workloads w n of
        None \<Rightarrow> (Inl ''deployment not found'', w)
      | Some wl \<Rightarrow>
          (Inr \<lparr>Name = n, Namespace = ''default'', Annotations = template wl,
                Containers = containers wl\<rparr>, w))"

definition kube_GetLatestRevision :: "string \<Rightarrow> cluster \<Rightarrow> (error + int) \<times> cluster" where
  "kube_GetLatestRevision n w =
     (case workloads w n of
        None \<Rightarrow> (Inl ''deployment not found'', w)
      | Some wl \<Rightarrow> (Inr (int (length (history wl)) - 1), w))"

definition kube_ValidateContainer :: "v1_Deployment \<Rightarrow> string \<Rightarrow> error + string" where
  "kube_ValidateContainer d c =
     (if c \<in> set (Containers d) then Inr c else Inl ''container not found'')"

text \<open>
  Modelled from the spec: the commands of the gateways. The document that the reference
  template renders is the creator value; applying a document writes it under the marker key and
  records the new template as the latest revision.
\<close>

definition kube_Run :: "Cmd \<Rightarrow> cluster \<Rightarrow> (error + string) \<times> cluster" where
  "kube_Run c w =
     (if denied w c then (Inl ''forbidden'', w)
      else
        (case c of
           DeleteConfigMap n \<Rightarrow>
             (if n \<in> fst ` set (configmaps w)
              then (Inr ''deleted'',
                    w\<lparr>configmaps := filter (\<lambda>obj. fst obj \<noteq> n) (configmaps w)\<rparr>)
              else (Inl ''configmap not found'', w))
         | CreateConfigMap n d \<Rightarrow>
             (if n \<in> fst ` set (configmaps w)
              then (Inl ''configmap already exists'', w)
              else (Inr ''created'', w\<lparr>configmaps := configmaps w @ [(n, d)]\<rparr>))
         | WaitForRollout n t \<Rightarrow>
             (case workloads w n of
                None \<Rightarrow> (Inl ''deployment not found'', w)
              | Some wl \<Rightarrow> (Inr ''rolled out'', w))
         | RolloutUndo n i \<Rightarrow>
             (case workloads w n of
                None \<Rightarrow> (Inl ''deployment not found'', w)
              | Some wl \<Rightarrow>
                  (if 0 \<le> i \<and> nat i < length (history wl)
                   then (Inr ''rolled back'',
                         w\<lparr>workloads :=
                             (workloads w)(n \<mapsto> wl\<lparr>template := history wl ! nat i\<rparr>)\<rparr>)
                   else (Inl ''revision not found'', w)))
         | UpdateChangeCause n cause \<Rightarrow>
             (case workloads w n of
                None \<Rightarrow> (Inl ''deployment not found'', w)
              | Some wl \<Rightarrow>
                  (Inr ''annotated'',
                   w\<lparr>workloads := (workloads w)(n \<mapsto> wl\<lparr>changeCause := cause\<rparr>)\<rparr>))
         | PatchDeployment patch n \<Rightarrow>
             (case workloads w n of
                None \<Rightarrow> (Inl ''deployment not found'', w)
              | Some wl \<Rightarrow>
                  (Inr ''patched'',
                   w\<lparr>workloads := (workloads w)(n \<mapsto>
                        wl\<lparr>template := set_annotation markerKey patch (template wl),
                           history :=
                             history wl @ [set_annotation markerKey patch (template wl)]\<rparr>)\<rparr>))
         | ImageInspect args \<Rightarrow>
             (case args of
                [] \<Rightarrow> (Inl ''no image given'', w)
              | a # as \<Rightarrow>
                  (case map_of (images w) (last args) of
                     None \<Rightarrow> (Inl ''no such image'', w)
                   | Some p \<Rightarrow> (Inr p, w)))
         | Build dir args \<Rightarrow>
             (case args of
                [b, arg, t, tag, pf, p] \<Rightarrow> (Inr ''built'', w\<lparr>images := (tag, p) # images w\<rparr>)
              | _ \<Rightarrow> (Inl ''bad build arguments'', w))
         | Push img tag \<Rightarrow> (Inr ''pushed'', w)))"

definition join_slash :: "string list \<Rightarrow> string" where
  "join_slash xs = foldr (\<lambda>x acc. if acc = [] then x else x @ ''/'' @ acc) xs []"

definition kube_ReadFile :: "string \<Rightarrow> error + string" where
  "kube_ReadFile p =
     (if p = ''the-hook/Dockerfile'' then Inr ''ARG IMAGE''
      else if p = ''the-hook/deployment-patch.yaml'' then Inr ''{{.CreatedBy}}''
      else Inl ''file does not exist'')"

definition kube_WriteFile :: "string \<Rightarrow> string \<Rightarrow> nat \<Rightarrow> cluster \<Rightarrow> (error + unit) \<times> cluster" where
  "kube_WriteFile p d perm w = (Inr (), w\<lparr>files := (p, d) # files w\<rparr>)"

definition kube_renderTemplate :: "string \<Rightarrow> patchValues \<Rightarrow> cluster \<Rightarrow> error + string" where
  "kube_renderTemplate p v w =
     (case map_of (files w) p of
        None \<Rightarrow> Inl ''no such file''
      | Some t \<Rightarrow> Inr (CreatedBy v))"

definition kube :: "cluster env" where
  "kube =
     \<lparr>GetDeployment = kube_GetDeployment,
      GetLatestRevision = kube_GetLatestRevision,
      ValidateContainer = kube_ValidateContainer,
      Run = kube_Run,
      json_Marshal = (\<lambda>d. Inr (Name d)),
      bindata_ReadFile = kube_ReadFile,
      os_TempDir = ''/tmp'',
      os_Mkdir = (\<lambda>p perm w. w),
      os_WriteFile = kube_WriteFile,
      renderTemplate = kube_renderTemplate,
      path_Join = join_slash,
      filepath_Join = join_slash,
      quote = (\<lambda>s. CHR 0x22 # s @ [CHR 0x22]),
      defaultPatchChangeCause = ''gograpple patch'',
      defaultPatchCreator = ''gograpple'',
      defaultConfigMapMount = ''/etc/config/mounted'',
      createdByAnnotation = markerKey,
      defaultConfigMapDeploymentKey = ''deployment.json'',
      defaultConfigMapDeploymentSuffix = ''-patch'',
      defaultWaitTimeout = ''30s'',
      defaultTag = ''latest'',
      defaultPatchImageSuffix = ''-patch'',
      devDeploymentPatchFile = ''deployment-patch.yaml''\<rparr>"

text \<open>
  The numbers of snapshot objects named \<open>n\<close> and of marker annotations on the pod template of
  the workload \<open>d\<close>.
\<close>

definition snapshots :: "cluster \<Rightarrow> string \<Rightarrow> nat" where
  "snapshots w n = length (filter (\<lambda>obj. fst obj = n) (configmaps w))"

definition markers :: "cluster \<Rightarrow> string \<Rightarrow> nat" where
  "markers w d =
     (case workloads w d of
        None \<Rightarrow> 0
      | Some wl \<Rightarrow> length (filter (\<lambda>a. fst a = markerKey) (template wl)))"

text \<open>
  An example: the workload \<open>api\<close> with one container and one revision, not patched, and
  three images in the store, each built for another platform.
\<close>

definition api :: Grapple where
  "api = \<lparr>deployment =
            \<lparr>Name = ''api'', Namespace = ''default'', Annotations = [],
             Containers = [''app'']\<rparr>\<rparr>"

definition fresh :: cluster where
  "fresh =
     \<lparr>workloads =
        [''api'' \<mapsto> \<lparr>template = [], containers = [''app''], history = [[]], changeCause = []\<rparr>],
      configmaps = [],
      images = [(''api:1'', ''linux/amd64''), (''api:arm'', ''linux/arm64''),
                (''api:win'', ''windows/amd64'')],
      files = [],
      denied = (\<lambda>c. False)\<rparr>"

text \<open>
  More examples: \<open>api\<close> patched once, with its snapshot; \<open>api\<close> with the marker on its
  revisions 2 and 3, and no snapshot object; \<open>api\<close> with the marker on every revision, so
  that no undo removes it; a cluster that refuses to annotate the change cause; and one whose
  image builder refuses to build.
\<close>

definition patched :: cluster where
  "patched =
     fresh\<lparr>workloads :=
             [''api'' \<mapsto> \<lparr>template = [(markerKey, ''gograpple'')], containers = [''app''],
                          history = [[], [(markerKey, ''gograpple'')]], changeCause = []\<rparr>],
           configmaps := [(''api-patch'', [(''deployment.json'', ''api'')])]\<rparr>"

definition stacked :: cluster where
  "stacked =
     fresh\<lparr>workloads :=
             [''api'' \<mapsto> \<lparr>template = [(markerKey, ''gograpple'')], containers = [''app''],
                          history = [[], [], [(markerKey, ''gograpple'')],
                                     [(markerKey, ''gograpple'')]],
                          changeCause = []\<rparr>]\<rparr>"

definition stuck :: cluster where
  "stuck =
     fresh\<lparr>workloads :=
             [''api'' \<mapsto> \<lparr>template = [(markerKey, ''gograpple'')], containers = [''app''],
                          history = [[(markerKey, ''gograpple'')], [(markerKey, ''gograpple'')]],
                          changeCause = []\<rparr>]\<rparr>"

definition no_annotate :: cluster where
  "no_annotate =
     patched\<lparr>denied := (\<lambda>c. case c of UpdateChangeCause n cause \<Rightarrow> True | _ \<Rightarrow> False)\<rparr>"

definition no_build :: cluster where
  "no_build = fresh\<lparr>denied := (\<lambda>c. case c of Build dir args \<Rightarrow> True | _ \<Rightarrow> False)\<rparr>"

section \<open>The gateway calls, unfolded\<close>

lemma callRun_eq:
  "callRun e c s =
     (fst (Run e c (world s)),
      s\<lparr>world := snd (Run e c (world s)), trace := trace s @ [Ran c (fst (Run e c (world s)))]\<rparr>)"
  by (simp add: callRun_def split: prod.splits)

lemma callGetLatestRevision_eq:
  "callGetLatestRevision e n s =
     (fst (GetLatestRevision e n (world s)),
      s\<lparr>world := snd (GetLatestRevision e n (world s)),
        trace := trace s @ [Revision n (fst (GetLatestRevision e n (world s)))]\<rparr>)"
  by (simp add: callGetLatestRevision_def split: prod.splits)

lemma isPatched_eq:
  "isPatched e g s =
     (patched_reply e (fst (GetDeployment e (Name (deployment g)) (world s))),
      s\<lparr>world := snd (GetDeployment e (Name (deployment g)) (world s)),
        trace := trace s @
          [Fetched (Name (deployment g)) (fst (GetDeployment e (Name (deployment g)) (world s)))]\<rparr>)"
  by (simp add: isPatched_def callGetDeployment_def patched_reply_def split: prod.splits sum.splits)

lemma logline_simps [simp]:
  "world (logline l m s) = world s"
  "trace (logline l m s) = trace s"
  "logs (logline l m s) = logs s @ [(l, m)]"
  by (simp_all add: logline_def)

lemma kube_fields [simp]:
  "GetDeployment kube = kube_GetDeployment"
  "GetLatestRevision kube = kube_GetLatestRevision"
  "ValidateContainer kube = kube_ValidateContainer"
  "Run kube = kube_Run"
  "json_Marshal kube = (\<lambda>d. Inr (Name d))"
  "bindata_ReadFile kube = kube_ReadFile"
  "os_TempDir kube = ''/tmp''"
  "os_Mkdir kube = (\<lambda>p perm w. w)"
  "os_WriteFile kube = kube_WriteFile"
  "renderTemplate kube = kube_renderTemplate"
  "path_Join kube = join_slash"
  "filepath_Join kube = join_slash"
  "quote kube = (\<lambda>s. CHR 0x22 # s @ [CHR 0x22])"
  "defaultPatchCreator kube = ''gograpple''"
  "createdByAnnotation kube = markerKey"
  "defaultConfigMapDeploymentKey kube = ''deployment.json''"
  "defaultConfigMapDeploymentSuffix kube = ''-patch''"
  "defaultWaitTimeout kube = ''30s''"
  "defaultTag kube = ''latest''"
  "defaultPatchImageSuffix kube = ''-patch''"
  "devDeploymentPatchFile kube = ''deployment-patch.yaml''"
  by (simp_all add: kube_def)

section \<open>The state detector\<close>

text \<open>
  C6: \<open>isPatched\<close> answers true exactly when the fetch of the workload succeeds and the
  annotations of its pod template hold the marker key with the creator value; when the fetch
  fails it answers false. It returns a boolean, so no failure leaves it.
\<close>

theorem isPatched_reads_marker:
  "(fst (isPatched e g s) \<longleftrightarrow>
      (\<exists>d. fst (GetDeployment e (Name (deployment g)) (world s)) = Inr d \<and>
         map_of (Annotations d) (createdByAnnotation e) = Some (defaultPatchCreator e))) \<and>
   (\<forall>err. fst (GetDeployment e (Name (deployment g)) (world s)) = Inl err \<longrightarrow>
      \<not> fst (isPatched e g s))"
  by (auto simp add: isPatched_eq patched_reply_def marked_def split: sum.splits option.splits)

theorem isPatched_reads_marker_witness:
  "fst (GetDeployment kube (Name (deployment api))
          (world (start (fresh\<lparr>workloads := Map.empty\<rparr>)))) = Inl ''deployment not found'' \<and>
   \<not> fst (isPatched kube api (start (fresh\<lparr>workloads := Map.empty\<rparr>))) \<and>
   fst (isPatched kube api (start patched)) \<and>
   \<not> fst (isPatched kube api (start fresh))"
proof -
  have "fst (isPatched kube api (start patched)) \<and> \<not> fst (isPatched kube api (start fresh))"
    by code_simp
  with isPatched_reads_marker [of kube api "start (fresh\<lparr>workloads := Map.empty\<rparr>)"]
  show ?thesis
    by (simp add: kube_GetDeployment_def start_def fresh_def api_def)
qed

section \<open>Rollback\<close>

text \<open>
  C4: \<open>Rollback\<close> on a workload that is not patched returns the error "deployment not
  patched, stopping rollback" at once: the fetch of the check is the only call it makes, so no
  undo command is issued and no snapshot object is deleted.
\<close>

theorem Rollback_not_patched:
  assumes "\<not> fst (isPatched e g s)"
  shows "fst (Rollback e g s) = Inl ''deployment not patched, stopping rollback'' \<and>
         trace (snd (Rollback e g s)) =
           trace s @ [Fetched (Name (deployment g))
                        (fst (GetDeployment e (Name (deployment g)) (world s)))] \<and>
         world (snd (Rollback e g s)) = snd (GetDeployment e (Name (deployment g)) (world s))"
  using assms by (simp add: Rollback_def isPatched_eq split: bool.splits)

theorem Rollback_not_patched_witness:
  "\<not> fst (isPatched kube api (start fresh)) \<and>
   fst (Rollback kube api (start fresh)) = Inl ''deployment not patched, stopping rollback'' \<and>
   trace (snd (Rollback kube api (start fresh))) =
     [Fetched ''api'' (Inr \<lparr>Name = ''api'', Namespace = ''default'', Annotations = [],
                             Containers = [''app'']\<rparr>)] \<and>
   world (snd (Rollback kube api (start fresh))) = fresh"
proof -
  have h: "\<not> fst (isPatched kube api (start fresh))"
    by (simp add: isPatched_eq patched_reply_def marked_def kube_GetDeployment_def start_def
        fresh_def api_def)
  show ?thesis
    using h Rollback_not_patched [OF h]
    by (simp add: kube_GetDeployment_def start_def fresh_def api_def)
qed

section \<open>The rollback loop, case by case\<close>

declare rollback_loop.simps [simp del]
declare show_nat.simps [simp del]

lemma rollback_loop_exit:
  "i < 0 \<Longrightarrow>
   rollback_loop e g i s =
     (Inl (''couldnt rollback deployment '' @ Name (deployment g) @ '' into unpatched state''), s)"
  by (subst rollback_loop.simps) simp


lemma rollback_loop_step:
  assumes "0 \<le> i"
    and "Run e (DeleteConfigMap (DeploymentConfigMapName e g)) (world s) = (rd, w1)"
    and "Run e (RolloutUndo (Name (deployment g)) i) w1 = (ru, w2)"
    and "GetDeployment e (Name (deployment g)) w2 = (rf, w3)"
    and "Run e (UpdateChangeCause (Name (deployment g)) (''rollback to '' @ show_int i)) w3
           = (ra, w4)"
  shows "rollback_loop e g i s =
     (case ru of
        Inl err \<Rightarrow>
          (Inl err,
           s\<lparr>logs := logs s @ iteration_logs e g i rd,
             world := w2,
             trace := trace s @ [Ran (DeleteConfigMap (DeploymentConfigMapName e g)) rd,
                                 Ran (RolloutUndo (Name (deployment g)) i) ru]\<rparr>)
      | Inr out \<Rightarrow>
          if patched_reply e rf
          then rollback_loop e g (i - 1)
                 (s\<lparr>logs := logs s @ iteration_logs e g i rd,
                    world := w3,
                    trace := trace s @ [Ran (DeleteConfigMap (DeploymentConfigMapName e g)) rd,
                                        Ran (RolloutUndo (Name (deployment g)) i) ru,
                                        Fetched (Name (deployment g)) rf]\<rparr>)
          else (case ra of Inl err \<Rightarrow> Inl err | Inr out' \<Rightarrow> Inr (),
                s\<lparr>logs := logs s @ iteration_logs e g i rd,
                  world := w4,
                  trace := trace s @ [Ran (DeleteConfigMap (DeploymentConfigMapName e g)) rd,
                                      Ran (RolloutUndo (Name (deployment g)) i) ru,
                                      Fetched (Name (deployment g)) rf,
                                      Ran (UpdateChangeCause (Name (deployment g))
                                             (''rollback to '' @ show_int i)) ra]\<rparr>))"
  using assms
  by (subst rollback_loop.simps)
     (simp add: callRun_eq isPatched_eq logline_def iteration_logs_def split: sum.splits)

lemma rollback_loop_induct' [case_names exhausted undo_failed stopped continue]:
  assumes exhausted:
    "\<And>i s. i < 0 \<Longrightarrow>
       P i s (Inl (''couldnt rollback deployment '' @ Name (deployment g)
                   @ '' into unpatched state'')) s"
  and undo_failed:
    "\<And>i s rd w1 err w2 s'.
       \<lbrakk>0 \<le> i;
        Run e (DeleteConfigMap (DeploymentConfigMapName e g)) (world s) = (rd, w1);
        Run e (RolloutUndo (Name (deployment g)) i) w1 = (Inl err, w2);
        world s' = w2;
        trace s' = trace s @ [Ran (DeleteConfigMap (DeploymentConfigMapName e g)) rd,
                              Ran (RolloutUndo (Name (deployment g)) i) (Inl err)];
        logs s' = logs s @ iteration_logs e g i rd\<rbrakk>
       \<Longrightarrow> P i s (Inl err) s'"
  and stopped:
    "\<And>i s rd w1 out w2 rf w3 ra w4 s'.
       \<lbrakk>0 \<le> i;
        Run e (DeleteConfigMap (DeploymentConfigMapName e g)) (world s) = (rd, w1);
        Run e (RolloutUndo (Name (deployment g)) i) w1 = (Inr out, w2);
        GetDeployment e (Name (deployment g)) w2 = (rf, w3);
        \<not> patched_reply e rf;
        Run e (UpdateChangeCause (Name (deployment g)) (''rollback to '' @ show_int i)) w3
          = (ra, w4);
        world s' = w4;
        trace s' = trace s @ [Ran (DeleteConfigMap (DeploymentConfigMapName e g)) rd,
                              Ran (RolloutUndo (Name (deployment g)) i) (Inr out),
                              Fetched (Name (deployment g)) rf,
                              Ran (UpdateChangeCause (Name (deployment g))
                                     (''rollback to '' @ show_int i)) ra];
        logs s' = logs s @ iteration_logs e g i rd\<rbrakk>
       \<Longrightarrow> P i s (case ra of Inl err \<Rightarrow> Inl err | Inr out' \<Rightarrow> Inr ()) s'"
  and continue:
    "\<And>i s rd w1 out w2 rf w3 s3 res s'.
       \<lbrakk>0 \<le> i;
        Run e (DeleteConfigMap (DeploymentConfigMapName e g)) (world s) = (rd, w1);
        Run e (RolloutUndo (Name (deployment g)) i) w1 = (Inr out, w2);
        GetDeployment e (Name (deployment g)) w2 = (rf, w3);
        patched_reply e rf;
        world s3 = w3;
        trace s3 = trace s @ [Ran (DeleteConfigMap (DeploymentConfigMapName e g)) rd,
                              Ran (RolloutUndo (Name (deployment g)) i) (Inr out),
                              Fetched (Name (deployment g)) rf];
        logs s3 = logs s @ iteration_logs e g i rd;
        P (i - 1) s3 res s'\<rbrakk>
       \<Longrightarrow> P i s res s'"
  shows "P i s (fst (rollback_loop e g i s)) (snd (rollback_loop e g i s))"
proof (induction "nat (i + 1)" arbitrary: i s)
  case 0
  then have "i < 0" by simp
  then show ?case using exhausted [of i s] by (simp add: rollback_loop_exit)
next
  case (Suc k)
  then have i0: "0 \<le> i" and k: "k = nat (i - 1 + 1)" by simp_all
  obtain rd w1 where d: "Run e (DeleteConfigMap (DeploymentConfigMapName e g)) (world s) = (rd, w1)"
    by (cases "Run e (DeleteConfigMap (DeploymentConfigMapName e g)) (world s)")
  obtain ru w2 where u: "Run e (RolloutUndo (Name (deployment g)) i) w1 = (ru, w2)"
    by (cases "Run e (RolloutUndo (Name (deployment g)) i) w1")
  obtain rf w3 where f: "GetDeployment e (Name (deployment g)) w2 = (rf, w3)"
    by (cases "GetDeployment e (Name (deployment g)) w2")
  obtain ra w4 where a:
    "Run e (UpdateChangeCause (Name (deployment g)) (''rollback to '' @ show_int i)) w3 = (ra, w4)"
    by (cases "Run e (UpdateChangeCause (Name (deployment g)) (''rollback to '' @ show_int i)) w3")
  note step = rollback_loop_step [OF i0 d u f a]
  show ?case
  proof (cases ru)
    case (Inl err)
    show ?thesis
      unfolding step Inl
      using undo_failed [OF i0 d u [unfolded Inl]] by simp
  next
    case (Inr out)
    show ?thesis
    proof (cases "patched_reply e rf")
      case False
      show ?thesis
        unfolding step Inr
        using stopped [OF i0 d u [unfolded Inr] f False a] False by simp
    next
      case True
      show ?thesis
        unfolding step Inr
        using continue [OF i0 d u [unfolded Inr] f True _ _ _ Suc.hyps(1) [OF k]] True by simp
    qed
  qed
qed


lemma rev_upto_step: "0 \<le> i \<Longrightarrow> rev [0..i] = i # rev [0..i - 1]"
  by (simp add: upto_rec2)

lemma checks_nonempty: "checks e evs \<noteq> [] \<Longrightarrow> evs \<noteq> []"
  by auto

lemma undos_nonempty: "undos evs \<noteq> [] \<Longrightarrow> evs \<noteq> []"
  by auto

lemma walked_continue:
  assumes "0 \<le> i" and "patched_reply e rf" and "walked e g (i - 1) new res"
  shows "walked e g i
           ([Ran (DeleteConfigMap cm) rd, Ran (RolloutUndo (Name (deployment g)) i) (Inr out),
             Fetched (Name (deployment g)) rf] @ new) res"
proof -
  let ?pre = "[Ran (DeleteConfigMap cm) rd, Ran (RolloutUndo (Name (deployment g)) i) (Inr out),
               Fetched (Name (deployment g)) rf]"
  have re: "rechecked (?pre @ new)"
    using assms(3) by (simp add: walked_def)
  have ch: "checks e (?pre @ new) = True # checks e new"
    using assms(2) by simp
  have un: "undos (?pre @ new) = i # undos new"
    by simp
  have n1: "nat (i + 1) = Suc (nat (i - 1 + 1))"
    using assms(1) by simp
  from assms(3) consider
    (a) k rep where "k < nat (i - 1 + 1)" "checks e new = replicate k True @ [False]"
      "undos new = take (Suc k) (rev [0..i - 1])"
      "last new = Ran (UpdateChangeCause (Name (deployment g))
                           (''rollback to '' @ show_int (i - 1 - int k))) rep"
      "res = (case rep of Inl err \<Rightarrow> Inl err | Inr out \<Rightarrow> Inr ())"
  | (b) "checks e new = replicate (nat (i - 1 + 1)) True" "undos new = rev [0..i - 1]"
      "res = Inl (''couldnt rollback deployment '' @ Name (deployment g)
                     @ '' into unpatched state'')"
  | (c) k err where "k < nat (i - 1 + 1)" "checks e new = replicate k True"
      "undos new = take (Suc k) (rev [0..i - 1])"
      "last new = Ran (RolloutUndo (Name (deployment g)) (i - 1 - int k)) (Inl err)"
      "res = Inl err"
    unfolding walked_def by blast
  then show ?thesis
  proof cases
    case a
    have ne: "new \<noteq> []" using a(2) checks_nonempty [of e new] by simp
    have "Suc k < nat (i + 1)" using a(1) n1 by simp
    moreover have "checks e (?pre @ new) = replicate (Suc k) True @ [False]"
      using ch a(2) by simp
    moreover have "undos (?pre @ new) = take (Suc (Suc k)) (rev [0..i])"
      using un a(3) assms(1) by (simp add: rev_upto_step)
    moreover have "last (?pre @ new) = Ran (UpdateChangeCause (Name (deployment g))
                           (''rollback to '' @ show_int (i - int (Suc k)))) rep"
      using ne a(4) by (simp add: algebra_simps)
    ultimately show ?thesis
      unfolding walked_def using re a(5) by blast
  next
    case b
    have "checks e (?pre @ new) = replicate (nat (i + 1)) True"
      using ch b(1) n1 by simp
    moreover have "undos (?pre @ new) = rev [0..i]"
      using un b(2) assms(1) by (simp add: rev_upto_step)
    ultimately show ?thesis
      unfolding walked_def using re b(3) by blast
  next
    case c
    have "undos new \<noteq> []" using c(3) assms(1) c(1)
      by (cases "rev [0..i - 1]") auto
    then have ne: "new \<noteq> []" by (rule undos_nonempty)
    have "Suc k < nat (i + 1)" using c(1) n1 by simp
    moreover have "checks e (?pre @ new) = replicate (Suc k) True"
      using ch c(2) by simp
    moreover have "undos (?pre @ new) = take (Suc (Suc k)) (rev [0..i])"
      using un c(3) assms(1) by (simp add: rev_upto_step)
    moreover have "last (?pre @ new) = Ran (RolloutUndo (Name (deployment g)) (i - int (Suc k))) (Inl err)"
      using ne c(4) by (simp add: algebra_simps)
    ultimately show ?thesis
      unfolding walked_def using re c(5) by blast
  qed
qed

lemma rollback_loop_run:
  "\<exists>new. trace (snd (rollback_loop e g i s)) = trace s @ new \<and>
     walked e g i new (fst (rollback_loop e g i s))"
proof (rule rollback_loop_induct'
    [where P = "\<lambda>i s res s'. \<exists>new. trace s' = trace s @ new \<and> walked e g i new res"])
  fix i :: int and s :: "'a state"
  assume "i < 0"
  then have "walked e g i [] (Inl (''couldnt rollback deployment '' @ Name (deployment g)
                   @ '' into unpatched state''))"
    by (simp add: walked_def)
  then show "\<exists>new. trace s = trace s @ new \<and> walked e g i new
      (Inl (''couldnt rollback deployment '' @ Name (deployment g) @ '' into unpatched state''))"
    by simp
next
  fix i :: int and s s' :: "'a state" and rd w1 err w2
  assume i0: "0 \<le> i"
    and tr: "trace s' = trace s @ [Ran (DeleteConfigMap (DeploymentConfigMapName e g)) rd,
                              Ran (RolloutUndo (Name (deployment g)) i) (Inl err)]"
  have "walked e g i [Ran (DeleteConfigMap (DeploymentConfigMapName e g)) rd,
                      Ran (RolloutUndo (Name (deployment g)) i) (Inl err)] (Inl err)"
    unfolding walked_def using i0
    by (intro conjI disjI2 exI [of _ "0::nat"] exI [of _ err]) (simp_all add: rev_upto_step)
  with tr show "\<exists>new. trace s' = trace s @ new \<and> walked e g i new (Inl err)"
    by blast
next
  fix i :: int and s s' :: "'a state" and rd w1 out w2 rf w3 ra w4
  assume i0: "0 \<le> i" and np: "\<not> patched_reply e rf"
    and tr: "trace s' = trace s @ [Ran (DeleteConfigMap (DeploymentConfigMapName e g)) rd,
                              Ran (RolloutUndo (Name (deployment g)) i) (Inr out),
                              Fetched (Name (deployment g)) rf,
                              Ran (UpdateChangeCause (Name (deployment g))
                                     (''rollback to '' @ show_int i)) ra]"
  have "walked e g i [Ran (DeleteConfigMap (DeploymentConfigMapName e g)) rd,
                              Ran (RolloutUndo (Name (deployment g)) i) (Inr out),
                              Fetched (Name (deployment g)) rf,
                              Ran (UpdateChangeCause (Name (deployment g))
                                     (''rollback to '' @ show_int i)) ra]
          (case ra of Inl err \<Rightarrow> Inl err | Inr out' \<Rightarrow> Inr ())"
    unfolding walked_def using i0 np
    by (intro conjI disjI1 exI [of _ "0::nat"] exI [of _ ra]) (simp_all add: rev_upto_step)
  with tr show "\<exists>new. trace s' = trace s @ new \<and> walked e g i new
        (case ra of Inl err \<Rightarrow> Inl err | Inr out' \<Rightarrow> Inr ())"
    by blast
next
  fix i :: int and s s3 s' :: "'a state" and rd w1 out w2 rf w3 res
  assume i0: "0 \<le> i" and p: "patched_reply e rf"
    and tr: "trace s3 = trace s @ [Ran (DeleteConfigMap (DeploymentConfigMapName e g)) rd,
                              Ran (RolloutUndo (Name (deployment g)) i) (Inr out),
                              Fetched (Name (deployment g)) rf]"
    and ih: "\<exists>new. trace s' = trace s3 @ new \<and> walked e g (i - 1) new res"
  from ih obtain new where n: "trace s' = trace s3 @ new" "walked e g (i - 1) new res"
    by blast
  have "trace s' = trace s @ ([Ran (DeleteConfigMap (DeploymentConfigMapName e g)) rd,
                              Ran (RolloutUndo (Name (deployment g)) i) (Inr out),
                              Fetched (Name (deployment g)) rf] @ new)"
    using n(1) tr by simp
  with walked_continue [OF i0 p n(2)]
  show "\<exists>new. trace s' = trace s @ new \<and> walked e g i new res"
    by blast
qed

section \<open>The walk of the rollback\<close>

lemma int_dec_eq: "- 9223372036854775808 < r \<Longrightarrow> int_dec r = r - 1"
  by (simp add: int_dec_def)

text \<open>
  C3: when the latest revision is \<open>r\<close>, the walk of \<open>rollback\<close> issues its undo
  commands to \<open>r - 1\<close>, \<open>r - 2\<close>, ... in this order, a prefix of the revisions down to 0;
  each undo that succeeded is followed by a fetch that re-checks the patched state; and the walk
  ends in one of three ways. Either the first check that answers "not patched" ends it: the
  change cause is annotated with the revision just undone to, and the result is success once
  that annotation succeeded. Or every revision down to 0 was undone to and every check answered
  "patched": the result is the error that names the deployment. Or an undo failed, and its
  error is the result.
\<close>

theorem rollback_walk:
  assumes "fst (GetLatestRevision e (Name (deployment g)) (world s)) = Inr r"
    and "- 9223372036854775808 < r"
  shows "\<exists>new.
     trace (snd (rollback e g s)) = trace s @ Revision (Name (deployment g)) (Inr r) # new \<and>
     rechecked new \<and>
     ((\<exists>k rep. k < nat r \<and> checks e new = replicate k True @ [False] \<and>
         undos new = take (Suc k) (rev [0..r - 1]) \<and>
         last new = Ran (UpdateChangeCause (Name (deployment g))
                           (''rollback to '' @ show_int (r - 1 - int k))) rep \<and>
         fst (rollback e g s) = (case rep of Inl err \<Rightarrow> Inl err | Inr out \<Rightarrow> Inr ()))
      \<or> (checks e new = replicate (nat r) True \<and> undos new = rev [0..r - 1] \<and>
          fst (rollback e g s) =
            Inl (''couldnt rollback deployment '' @ Name (deployment g)
                 @ '' into unpatched state''))
      \<or> (\<exists>k err. k < nat r \<and> checks e new = replicate k True \<and>
          undos new = take (Suc k) (rev [0..r - 1]) \<and>
          last new = Ran (RolloutUndo (Name (deployment g)) (r - 1 - int k)) (Inl err) \<and>
          fst (rollback e g s) = Inl err))"
proof -
  let ?s1 = "s\<lparr>world := snd (GetLatestRevision e (Name (deployment g)) (world s)),
               trace := trace s @ [Revision (Name (deployment g)) (Inr r)]\<rparr>"
  have rb: "rollback e g s = rollback_loop e g (r - 1) ?s1"
    using assms by (simp add: rollback_def callGetLatestRevision_eq int_dec_eq)
  from rollback_loop_run [of e g "r - 1" ?s1]
  obtain new where n: "trace (snd (rollback_loop e g (r - 1) ?s1)) = trace ?s1 @ new"
    "walked e g (r - 1) new (fst (rollback_loop e g (r - 1) ?s1))"
    by blast
  have "trace (snd (rollback e g s)) = trace s @ Revision (Name (deployment g)) (Inr r) # new"
    using n(1) rb by simp
  with n(2) show ?thesis
    unfolding walked_def rb by (intro exI [of _ new]) simp
qed


theorem rollback_walk_witness:
  "fst (GetLatestRevision kube (Name (deployment api)) (world (start stacked))) = Inr 3 \<and>
   (- 9223372036854775808 :: int) < 3 \<and>
   fst (rollback kube api (start stacked)) = Inr () \<and>
   trace (snd (rollback kube api (start stacked))) =
     [Revision ''api'' (Inr 3),
      Ran (DeleteConfigMap ''api-patch'') (Inl ''configmap not found''),
      Ran (RolloutUndo ''api'' 2) (Inr ''rolled back''),
      Fetched ''api'' (Inr \<lparr>Name = ''api'', Namespace = ''default'',
                              Annotations = [(''gograpple/created-by'', ''gograpple'')],
                              Containers = [''app'']\<rparr>),
      Ran (DeleteConfigMap ''api-patch'') (Inl ''configmap not found''),
      Ran (RolloutUndo ''api'' 1) (Inr ''rolled back''),
      Fetched ''api'' (Inr \<lparr>Name = ''api'', Namespace = ''default'', Annotations = [],
                              Containers = [''app'']\<rparr>),
      Ran (UpdateChangeCause ''api'' ''rollback to 1'') (Inr ''annotated'')]"
proof -
  have h1: "fst (GetLatestRevision kube (Name (deployment api)) (world (start stacked))) = Inr 3"
    by code_simp
  have h2: "(- 9223372036854775808 :: int) < 3"
    by simp
  have run: "fst (rollback kube api (start stacked)) = Inr () \<and>
   trace (snd (rollback kube api (start stacked))) =
     [Revision ''api'' (Inr 3),
      Ran (DeleteConfigMap ''api-patch'') (Inl ''configmap not found''),
      Ran (RolloutUndo ''api'' 2) (Inr ''rolled back''),
      Fetched ''api'' (Inr \<lparr>Name = ''api'', Namespace = ''default'',
                              Annotations = [(''gograpple/created-by'', ''gograpple'')],
                              Containers = [''app'']\<rparr>),
      Ran (DeleteConfigMap ''api-patch'') (Inl ''configmap not found''),
      Ran (RolloutUndo ''api'' 1) (Inr ''rolled back''),
      Fetched ''api'' (Inr \<lparr>Name = ''api'', Namespace = ''default'', Annotations = [],
                              Containers = [''app'']\<rparr>),
      Ran (UpdateChangeCause ''api'' ''rollback to 1'') (Inr ''annotated'')]"
    by code_simp
  from rollback_walk [OF h1 h2] h1 h2 run show ?thesis
    by blast
qed


lemma loop_annotate_failure:
  "\<exists>new. trace (snd (rollback_loop e g i s)) = trace s @ new \<and>
     (\<forall>c err. new \<noteq> [] \<and> last new = Ran (UpdateChangeCause (Name (deployment g)) c) (Inl err)
        \<longrightarrow> fst (rollback_loop e g i s) = Inl err \<and> checks e new \<noteq> [] \<and>
            \<not> last (checks e new))"
proof (rule rollback_loop_induct'
    [where P = "\<lambda>i s res s'. \<exists>new. trace s' = trace s @ new \<and>
     (\<forall>c err. new \<noteq> [] \<and> last new = Ran (UpdateChangeCause (Name (deployment g)) c) (Inl err)
        \<longrightarrow> res = Inl err \<and> checks e new \<noteq> [] \<and> \<not> last (checks e new))"], goal_cases)
  case (1 i s)
  show ?case by (rule exI [of _ "[]"]) simp
next
  case (2 i s rd w1 err w2 s')
  show ?case
    by (rule exI [of _ "[Ran (DeleteConfigMap (DeploymentConfigMapName e g)) rd,
                         Ran (RolloutUndo (Name (deployment g)) i) (Inl err)]"])
       (simp add: 2)
next
  case (3 i s rd w1 out w2 rf w3 ra w4 s')
  show ?case
    by (rule exI [of _ "[Ran (DeleteConfigMap (DeploymentConfigMapName e g)) rd,
                         Ran (RolloutUndo (Name (deployment g)) i) (Inr out),
                         Fetched (Name (deployment g)) rf,
                         Ran (UpdateChangeCause (Name (deployment g))
                                (''rollback to '' @ show_int i)) ra]"])
       (simp add: 3)
next
  case (4 i s rd w1 out w2 rf w3 s3 res s')
  from 4(9) obtain new' where n: "trace s' = trace s3 @ new'"
    and q: "\<And>c err. new' \<noteq> [] \<Longrightarrow>
              last new' = Ran (UpdateChangeCause (Name (deployment g)) c) (Inl err) \<Longrightarrow>
              res = Inl err \<and> checks e new' \<noteq> [] \<and> \<not> last (checks e new')"
    by blast
  let ?pre = "[Ran (DeleteConfigMap (DeploymentConfigMapName e g)) rd,
               Ran (RolloutUndo (Name (deployment g)) i) (Inr out),
               Fetched (Name (deployment g)) rf]"
  have tr: "trace s' = trace s @ (?pre @ new')"
    using n 4(7) by simp
  have "res = Inl err \<and> checks e (?pre @ new') \<noteq> [] \<and> \<not> last (checks e (?pre @ new'))"
    if "last (?pre @ new') = Ran (UpdateChangeCause (Name (deployment g)) c) (Inl err)"
    for c err
  proof (cases "new' = []")
    case True
    with that show ?thesis by simp
  next
    case False
    with that have "last new' = Ran (UpdateChangeCause (Name (deployment g)) c) (Inl err)"
      by simp
    from q [OF False this] show ?thesis by simp
  qed
  with tr show ?case by blast
qed

text \<open>
  C10: when the last thing \<open>Rollback\<close> did is an annotation of the change cause that
  failed, \<open>Rollback\<close> returns that failure, although the check made just before answered
  "not patched".
\<close>

theorem Rollback_annotate_failure:
  assumes "trace (snd (Rollback e g s)) = trace s @ new"
    and "new \<noteq> []"
    and "last new = Ran (UpdateChangeCause (Name (deployment g)) c) (Inl err)"
  shows "fst (Rollback e g s) = Inl err \<and> checks e new \<noteq> [] \<and> \<not> last (checks e new)"
proof -
  let ?n = "Name (deployment g)"
  let ?f = "fst (GetDeployment e ?n (world s))"
  let ?s0 = "snd (isPatched e g (logline Info ''rolling back'' s))"
  have t0: "trace ?s0 = trace s @ [Fetched ?n ?f]"
    by (simp add: isPatched_eq)
  show ?thesis
  proof (cases "fst (isPatched e g (logline Info ''rolling back'' s))")
    case False
    then have "trace (snd (Rollback e g s)) = trace s @ [Fetched ?n ?f]"
      by (simp add: Rollback_def isPatched_eq split: bool.splits)
    with assms(1) have "new = [Fetched ?n ?f]" by simp
    with assms(3) show ?thesis by simp
  next
    case True
    then have rb: "Rollback e g s = rollback e g ?s0"
      by (auto simp add: Rollback_def split: prod.splits bool.splits)
    let ?r = "fst (GetLatestRevision e ?n (world ?s0))"
    let ?s1 = "snd (callGetLatestRevision e ?n ?s0)"
    have t1: "trace ?s1 = trace s @ [Fetched ?n ?f, Revision ?n ?r]"
      using t0 by (simp add: callGetLatestRevision_eq)
    show ?thesis
    proof (cases ?r)
      case (Inl err')
      then have "trace (snd (Rollback e g s)) = trace s @ [Fetched ?n ?f, Revision ?n ?r]"
        using t1 by (simp add: rb rollback_def callGetLatestRevision_eq)
      with assms(1) have "new = [Fetched ?n ?f, Revision ?n ?r]" by simp
      with assms(3) show ?thesis by simp
    next
      case (Inr r)
      then have lp: "Rollback e g s = rollback_loop e g (int_dec r) ?s1"
        by (simp add: rb rollback_def callGetLatestRevision_eq)
      from loop_annotate_failure [of e g "int_dec r" ?s1]
      obtain new' where n: "trace (snd (rollback_loop e g (int_dec r) ?s1)) = trace ?s1 @ new'"
        and q: "\<And>c err. new' \<noteq> [] \<Longrightarrow>
              last new' = Ran (UpdateChangeCause ?n c) (Inl err) \<Longrightarrow>
              fst (rollback_loop e g (int_dec r) ?s1) = Inl err \<and> checks e new' \<noteq> [] \<and>
              \<not> last (checks e new')"
        by blast
      have new: "new = [Fetched ?n ?f, Revision ?n ?r] @ new'"
        using assms(1) n t1 lp by simp
      show ?thesis
      proof (cases "new' = []")
        case True
        with new assms(3) show ?thesis by simp
      next
        case False
        with new assms(3) have "last new' = Ran (UpdateChangeCause ?n c) (Inl err)"
          by simp
        from q [OF False this] show ?thesis
          using new lp by simp
      qed
    qed
  qed
qed

theorem Rollback_annotate_failure_witness:
  "trace (snd (Rollback kube api (start no_annotate))) =
     trace (start no_annotate) @
       [Fetched ''api'' (Inr \<lparr>Name = ''api'', Namespace = ''default'',
                              Annotations = [(''gograpple/created-by'', ''gograpple'')],
                              Containers = [''app'']\<rparr>),
        Revision ''api'' (Inr 1),
        Ran (DeleteConfigMap ''api-patch'') (Inr ''deleted''),
        Ran (RolloutUndo ''api'' 0) (Inr ''rolled back''),
        Fetched ''api'' (Inr \<lparr>Name = ''api'', Namespace = ''default'', Annotations = [],
                              Containers = [''app'']\<rparr>),
        Ran (UpdateChangeCause (Name (deployment api)) ''rollback to 0'') (Inl ''forbidden'')] \<and>
   fst (Rollback kube api (start no_annotate)) = Inl ''forbidden'' \<and>
   \<not> fst (isPatched kube api (snd (Rollback kube api (start no_annotate))))"
proof -
  let ?new = "[Fetched ''api'' (Inr \<lparr>Name = ''api'', Namespace = ''default'',
                              Annotations = [(''gograpple/created-by'', ''gograpple'')],
                              Containers = [''app'']\<rparr>),
        Revision ''api'' (Inr 1),
        Ran (DeleteConfigMap ''api-patch'') (Inr ''deleted''),
        Ran (RolloutUndo ''api'' 0) (Inr ''rolled back''),
        Fetched ''api'' (Inr \<lparr>Name = ''api'', Namespace = ''default'', Annotations = [],
                              Containers = [''app'']\<rparr>),
        Ran (UpdateChangeCause (Name (deployment api)) ''rollback to 0'') (Inl ''forbidden'')]"
  have h1: "trace (snd (Rollback kube api (start no_annotate))) = trace (start no_annotate) @ ?new"
    by code_simp
  have h2: "?new \<noteq> []"
    by simp
  have h3: "last ?new = Ran (UpdateChangeCause (Name (deployment api)) ''rollback to 0'')
                          (Inl ''forbidden'')"
    by simp
  have after: "\<not> fst (isPatched kube api (snd (Rollback kube api (start no_annotate))))"
    by code_simp
  from Rollback_annotate_failure [OF h1 h2 h3] h1 after show ?thesis
    by blast
qed

section \<open>The transcript of a patch\<close>

lemma snapshotDeployment_run:
  assumes "snapshotDeployment e g image' platform s = (res, s')"
  shows
    "(\<exists>err. res = Inl err \<and>
        trace s' = trace s @
          [Ran (ImageInspect [''-f'', ''{{.Os}}/{{.Architecture}}'', image']) (Inl err)])
   \<or> (\<exists>ip. ip \<noteq> platform \<and>
        res = Inl (''Provided image '' @ quote e image' @ '' was built for platform ''
             @ quote e ip @ '', and configured platform is '' @ quote e platform
             @ '', please rebuild for correct platform'') \<and>
        trace s' = trace s @
          [Ran (ImageInspect [''-f'', ''{{.Os}}/{{.Architecture}}'', image']) (Inr ip)])
   \<or> (\<exists>err. res = Inl err \<and>
        trace s' = trace s @
          [Ran (ImageInspect [''-f'', ''{{.Os}}/{{.Architecture}}'', image']) (Inr platform)])
   \<or> (\<exists>err rd bs. res = Inl err \<and>
        trace s' = trace s @
         [Ran (ImageInspect [''-f'', ''{{.Os}}/{{.Architecture}}'', image']) (Inr platform),
          Ran (DeleteConfigMap (DeploymentConfigMapName e g)) rd,
          Ran (CreateConfigMap (DeploymentConfigMapName e g)
                 [(defaultConfigMapDeploymentKey e, bs)]) (Inl err)])
   \<or> (\<exists>out rd bs w. res = Inr () \<and>
        trace s' = trace s @
         [Ran (ImageInspect [''-f'', ''{{.Os}}/{{.Architecture}}'', image']) (Inr platform),
          Ran (DeleteConfigMap (DeploymentConfigMapName e g)) rd,
          Ran (CreateConfigMap (DeploymentConfigMapName e g)
                 [(defaultConfigMapDeploymentKey e, bs)]) (Inr out)] \<and>
        fst (Run e (CreateConfigMap (DeploymentConfigMapName e g)
                 [(defaultConfigMapDeploymentKey e, bs)]) w) = Inr out \<and>
        world s' = snd (Run e (CreateConfigMap (DeploymentConfigMapName e g)
                 [(defaultConfigMapDeploymentKey e, bs)]) w))"
  using assms
  by (auto simp add: snapshotDeployment_def callRun_eq Let_def
      split: sum.splits prod.splits if_splits)


lemma extractPatchFiles_run:
  "\<exists>rw. trace (snd (extractPatchFiles e g s)) = trace s @
            [Ran (WaitForRollout (Name (deployment g)) (defaultWaitTimeout e)) rw]"
  by (simp add: extractPatchFiles_def callRun_eq Let_def split: sum.splits prod.splits)

lemma buildAndPatch_run:
  "\<exists>new. trace (snd (buildAndPatch e g repo image' platform container mounts s)) = trace s @ new \<and>
     checks e new = [] \<and> undos new = [] \<and>
     (\<forall>ev \<in> set new. \<not> cleanup ev \<and> \<not> created ev \<and> \<not> inspected ev)"
  by (simp add: buildAndPatch_def callRun_eq Let_def split: sum.splits prod.splits)

lemma buildAndPatch_success:
  assumes "fst (buildAndPatch e g repo image' platform container mounts s) = Inr ()"
  shows "\<exists>p w patch out.
        renderTemplate e p
          (newPatchValues e (Name (deployment g)) container
             (patchedImageName e g repo @ '':'' @ defaultTag e) mounts) w = Inr patch \<and>
        fst (Run e (PatchDeployment patch (Name (deployment g))) w) = Inr out \<and>
        world (snd (buildAndPatch e g repo image' platform container mounts s)) =
          snd (Run e (PatchDeployment patch (Name (deployment g))) w)"
proof (cases "repo = []")
  case True
  with assms show ?thesis
    by (simp add: buildAndPatch_def callRun_eq Let_def split: sum.splits) blast
next
  case False
  with assms show ?thesis
    by (simp add: buildAndPatch_def callRun_eq Let_def split: sum.splits) blast
qed


lemma rolling_not:
  "rolling ev \<Longrightarrow> \<not> created ev \<and> \<not> creating ev \<and> \<not> inspected ev \<and> \<not> building ev \<and> \<not> applying ev"
  by (cases ev rule: rolling.cases) simp_all

lemma checks_append [simp]: "checks e (xs @ ys) = checks e xs @ checks e ys"
  by (induction e xs rule: checks.induct) simp_all

lemma undos_append [simp]: "undos (xs @ ys) = undos xs @ undos ys"
  by (induction xs rule: undos.induct) simp_all

lemma rollback_loop_rolling:
  "\<exists>new. trace (snd (rollback_loop e g i s)) = trace s @ new \<and> (\<forall>ev \<in> set new. rolling ev)"
proof (rule rollback_loop_induct'
    [where P = "\<lambda>i s res s'. \<exists>new. trace s' = trace s @ new \<and> (\<forall>ev \<in> set new. rolling ev)"],
    goal_cases)
  case (1 i s)
  show ?case by simp
next
  case (2 i s rd w1 err w2 s')
  then show ?case by simp
next
  case (3 i s rd w1 out w2 rf w3 ra w4 s')
  then show ?case by simp
next
  case (4 i s rd w1 out w2 rf w3 s3 res s')
  from 4(9) obtain new where "trace s' = trace s3 @ new" "\<forall>ev \<in> set new. rolling ev"
    by blast
  with 4(7) show ?case
    by (intro exI [of _ "[Ran (DeleteConfigMap (DeploymentConfigMapName e g)) rd,
                         Ran (RolloutUndo (Name (deployment g)) i) (Inr out),
                         Fetched (Name (deployment g)) rf] @ new"]) simp
qed

lemma walked_success:
  assumes "walked e g i new (Inr ())"
  shows "checks e new \<noteq> [] \<and> \<not> last (checks e new)"
  using assms unfolding walked_def by (auto split: sum.splits)

lemma rollback_run:
  "\<exists>new. trace (snd (rollback e g s)) = trace s @ new \<and> (\<forall>ev \<in> set new. rolling ev) \<and>
     (fst (rollback e g s) = Inr () \<longrightarrow> checks e new \<noteq> [] \<and> \<not> last (checks e new))"
proof (cases "fst (GetLatestRevision e (Name (deployment g)) (world s))")
  case (Inl err)
  then show ?thesis
    by (simp add: rollback_def callGetLatestRevision_eq)
next
  case (Inr r)
  let ?s1 = "snd (callGetLatestRevision e (Name (deployment g)) s)"
  have rb: "rollback e g s = rollback_loop e g (int_dec r) ?s1"
    using Inr by (simp add: rollback_def callGetLatestRevision_eq)
  have t1: "trace ?s1 = trace s @ [Revision (Name (deployment g)) (Inr r)]"
    using Inr by (simp add: callGetLatestRevision_eq)
  from rollback_loop_rolling [of e g "int_dec r" ?s1]
  obtain new where n: "trace (snd (rollback_loop e g (int_dec r) ?s1)) = trace ?s1 @ new"
    "\<forall>ev \<in> set new. rolling ev"
    by blast
  from rollback_loop_run [of e g "int_dec r" ?s1]
  obtain new' where n': "trace (snd (rollback_loop e g (int_dec r) ?s1)) = trace ?s1 @ new'"
    "walked e g (int_dec r) new' (fst (rollback_loop e g (int_dec r) ?s1))"
    by blast
  have same: "new' = new" using n(1) n'(1) by simp
  have "fst (rollback e g s) = Inr () \<longrightarrow>
          checks e (Revision (Name (deployment g)) (Inr r) # new) \<noteq> [] \<and>
          \<not> last (checks e (Revision (Name (deployment g)) (Inr r) # new))"
    using walked_success [of e g "int_dec r" new] n'(2) same rb by auto
  moreover have "trace (snd (rollback e g s)) =
      trace s @ (Revision (Name (deployment g)) (Inr r) # new)"
    using n(1) t1 rb by simp
  moreover have "\<forall>ev \<in> set (Revision (Name (deployment g)) (Inr r) # new). rolling ev"
    using n(2) by simp
  ultimately show ?thesis by blast
qed

lemma applyPatch_run:
  "\<exists>new. trace (snd (applyPatch e g repo image' platform container mounts s)) = trace s @ new \<and>
     checks e new = [] \<and> undos new = [] \<and>
     (\<forall>ev \<in> set (after_created new). \<not> cleanup ev) \<and>
     (\<forall>ev \<in> set new. building ev \<longrightarrow>
        Ran (ImageInspect [''-f'', ''{{.Os}}/{{.Architecture}}'', image']) (Inr platform)
          \<in> set new) \<and>
     (\<forall>args ip. Ran (ImageInspect args) (Inr ip) \<in> set new \<and> ip \<noteq> platform \<longrightarrow>
        fst (applyPatch e g repo image' platform container mounts s) =
          Inl (''Provided image '' @ quote e image' @ '' was built for platform ''
             @ quote e ip @ '', and configured platform is '' @ quote e platform
             @ '', please rebuild for correct platform'') \<and>
        new = [Ran (ImageInspect [''-f'', ''{{.Os}}/{{.Architecture}}'', image']) (Inr ip)])"
proof (cases "ValidateContainer e (deployment g) container")
  case (Inl err)
  then show ?thesis
    by (simp add: applyPatch_def after_created_def)
next
  case (Inr container')
  obtain res1 s1 where r1: "snapshotDeployment e g image' platform s = (res1, s1)"
    by (cases "snapshotDeployment e g image' platform s")
  show ?thesis
  proof (cases res1)
    case (Inl err)
    then have ap: "applyPatch e g repo image' platform container mounts s = (Inl err, s1)"
      using Inr r1 by (simp add: applyPatch_def)
    from snapshotDeployment_run [OF r1] Inl show ?thesis
      unfolding ap by (auto simp add: after_created_def)
  next
    case u: (Inr u)
    then have res1: "res1 = Inr ()" by simp
    from snapshotDeployment_run [OF r1] res1
    obtain out rd bs where t1: "trace s1 = trace s @
         [Ran (ImageInspect [''-f'', ''{{.Os}}/{{.Architecture}}'', image']) (Inr platform),
          Ran (DeleteConfigMap (DeploymentConfigMapName e g)) rd,
          Ran (CreateConfigMap (DeploymentConfigMapName e g)
                 [(defaultConfigMapDeploymentKey e, bs)]) (Inr out)]"
      by auto
    obtain res2 s2 where r2: "extractPatchFiles e g s1 = (res2, s2)"
      by (cases "extractPatchFiles e g s1")
    from extractPatchFiles_run [of e g s1] r2
    obtain rw where t2: "trace s2 = trace s1 @
            [Ran (WaitForRollout (Name (deployment g)) (defaultWaitTimeout e)) rw]"
      by auto
    show ?thesis
    proof (cases res2)
      case (Inl err)
      then have ap: "applyPatch e g repo image' platform container mounts s = (Inl err, s2)"
        using Inr r1 res1 r2 by (simp add: applyPatch_def)
      show ?thesis
        unfolding ap using t1 t2 by (simp add: after_created_def)
    next
      case (Inr u2)
      then have ap: "applyPatch e g repo image' platform container mounts s =
          buildAndPatch e g repo image' platform container' mounts s2"
        using \<open>ValidateContainer e (deployment g) container = Inr container'\<close> r1 res1 r2
        by (simp add: applyPatch_def)
      from buildAndPatch_run [of e g repo image' platform container' mounts s2]
      obtain new3 where t3:
        "trace (snd (buildAndPatch e g repo image' platform container' mounts s2)) = trace s2 @ new3"
        "checks e new3 = []" "undos new3 = []"
        "\<forall>ev \<in> set new3. \<not> cleanup ev \<and> \<not> created ev \<and> \<not> inspected ev"
        by blast
      have ni: "Ran (ImageInspect args) (Inr ip) \<notin> set new3" for args ip
        using t3(4) by force
      show ?thesis
        unfolding ap using t1 t2 t3 ni
        by (intro exI [of _ "[Ran (ImageInspect [''-f'', ''{{.Os}}/{{.Architecture}}'', image']) (Inr platform),
          Ran (DeleteConfigMap (DeploymentConfigMapName e g)) rd,
          Ran (CreateConfigMap (DeploymentConfigMapName e g)
                 [(defaultConfigMapDeploymentKey e, bs)]) (Inr out),
          Ran (WaitForRollout (Name (deployment g)) (defaultWaitTimeout e)) rw] @ new3"])
           (simp add: after_created_def)
    qed
  qed
qed

section \<open>Patch: the platform check and the snapshot\<close>

lemma after_created_skip:
  "\<forall>ev \<in> set pre. \<not> created ev \<Longrightarrow> after_created (pre @ evs) = after_created evs"
  by (simp add: after_created_def dropWhile_append2)

lemma Patch_run:
  "\<exists>rb ap.
     trace (snd (Patch e g repo image' platform container mounts s)) =
       trace s @ Fetched (Name (deployment g))
                   (fst (GetDeployment e (Name (deployment g)) (world s))) # rb @ ap \<and>
     (\<forall>ev \<in> set rb. rolling ev) \<and>
     (\<not> fst (isPatched e g s) \<longrightarrow> rb = []) \<and>
     (ap \<noteq> [] \<longrightarrow>
        \<not> last (checks e (Fetched (Name (deployment g))
                   (fst (GetDeployment e (Name (deployment g)) (world s))) # rb))) \<and>
     checks e ap = [] \<and> undos ap = [] \<and>
     (\<forall>ev \<in> set (after_created ap). \<not> cleanup ev) \<and>
     (\<forall>ev \<in> set ap. building ev \<longrightarrow>
        Ran (ImageInspect [''-f'', ''{{.Os}}/{{.Architecture}}'', image']) (Inr platform)
          \<in> set ap) \<and>
     (\<forall>args ip. Ran (ImageInspect args) (Inr ip) \<in> set ap \<and> ip \<noteq> platform \<longrightarrow>
        fst (Patch e g repo image' platform container mounts s) =
          Inl (''Provided image '' @ quote e image' @ '' was built for platform ''
             @ quote e ip @ '', and configured platform is '' @ quote e platform
             @ '', please rebuild for correct platform'') \<and>
        ap = [Ran (ImageInspect [''-f'', ''{{.Os}}/{{.Architecture}}'', image']) (Inr ip)])"
proof -
  let ?n = "Name (deployment g)"
  let ?f0 = "fst (GetDeployment e ?n (world s))"
  let ?s0 = "snd (isPatched e g s)"
  have t0: "trace ?s0 = trace s @ [Fetched ?n ?f0]"
    by (simp add: isPatched_eq)
  have p0: "fst (isPatched e g s) = patched_reply e ?f0"
    by (simp add: isPatched_eq)
  show ?thesis
  proof (cases "fst (isPatched e g s)")
    case False
    then have pa: "Patch e g repo image' platform container mounts s =
        applyPatch e g repo image' platform container mounts ?s0"
      by (auto simp add: Patch_def split: prod.splits bool.splits)
    from applyPatch_run [of e g repo image' platform container mounts ?s0]
    obtain ap where ap:
      "trace (snd (applyPatch e g repo image' platform container mounts ?s0)) = trace ?s0 @ ap"
      "checks e ap = []" "undos ap = []"
      "\<forall>ev \<in> set (after_created ap). \<not> cleanup ev"
      "\<forall>ev \<in> set ap. building ev \<longrightarrow>
        Ran (ImageInspect [''-f'', ''{{.Os}}/{{.Architecture}}'', image']) (Inr platform)
          \<in> set ap"
      "\<forall>args ip. Ran (ImageInspect args) (Inr ip) \<in> set ap \<and> ip \<noteq> platform \<longrightarrow>
        fst (applyPatch e g repo image' platform container mounts ?s0) =
          Inl (''Provided image '' @ quote e image' @ '' was built for platform ''
             @ quote e ip @ '', and configured platform is '' @ quote e platform
             @ '', please rebuild for correct platform'') \<and>
        ap = [Ran (ImageInspect [''-f'', ''{{.Os}}/{{.Architecture}}'', image']) (Inr ip)]"
      by blast
    have tr: "trace (snd (Patch e g repo image' platform container mounts s)) =
       trace s @ Fetched ?n ?f0 # [] @ ap"
      using ap(1) t0 pa by simp
    have la: "\<not> last (checks e (Fetched ?n ?f0 # []))"
      using False p0 by simp
    show ?thesis
      apply (rule exI [of _ "[]"])
      apply (rule exI [of _ ap])
      using tr la ap(2-6) unfolding pa
      apply (simp, blast?)
      done
  next
    case True
    let ?sw = "logline Warn ''deployment already patched, rolling back first'' ?s0"
    from rollback_run [of e g ?sw]
    obtain rb where rb: "trace (snd (rollback e g ?sw)) = trace ?sw @ rb"
      "\<forall>ev \<in> set rb. rolling ev"
      "fst (rollback e g ?sw) = Inr () \<longrightarrow> checks e rb \<noteq> [] \<and> \<not> last (checks e rb)"
      by blast
    show ?thesis
    proof (cases "fst (rollback e g ?sw)")
      case (Inl err)
      then have pa: "Patch e g repo image' platform container mounts s =
          (Inl err, snd (rollback e g ?sw))"
        using True by (auto simp add: Patch_def split: prod.splits bool.splits sum.splits)
      show ?thesis
        apply (rule exI [of _ rb])
        apply (rule exI [of _ "[]"])
        using rb t0 True unfolding pa
        apply (simp add: after_created_def)
        done
    next
      case (Inr u)
      then have pa: "Patch e g repo image' platform container mounts s =
          applyPatch e g repo image' platform container mounts (snd (rollback e g ?sw))"
        using True by (auto simp add: Patch_def split: prod.splits bool.splits sum.splits)
      from Inr rb(3) have lc: "checks e rb \<noteq> []" "\<not> last (checks e rb)"
        by simp_all
      let ?s1 = "snd (rollback e g ?sw)"
      from applyPatch_run [of e g repo image' platform container mounts ?s1]
      obtain ap where ap:
        "trace (snd (applyPatch e g repo image' platform container mounts ?s1)) = trace ?s1 @ ap"
        "checks e ap = []" "undos ap = []"
        "\<forall>ev \<in> set (after_created ap). \<not> cleanup ev"
        "\<forall>ev \<in> set ap. building ev \<longrightarrow>
          Ran (ImageInspect [''-f'', ''{{.Os}}/{{.Architecture}}'', image']) (Inr platform)
            \<in> set ap"
        "\<forall>args ip. Ran (ImageInspect args) (Inr ip) \<in> set ap \<and> ip \<noteq> platform \<longrightarrow>
          fst (applyPatch e g repo image' platform container mounts ?s1) =
            Inl (''Provided image '' @ quote e image' @ '' was built for platform ''
               @ quote e ip @ '', and configured platform is '' @ quote e platform
               @ '', please rebuild for correct platform'') \<and>
          ap = [Ran (ImageInspect [''-f'', ''{{.Os}}/{{.Architecture}}'', image']) (Inr ip)]"
        by blast
      have tr: "trace (snd (Patch e g repo image' platform container mounts s)) =
         trace s @ Fetched ?n ?f0 # rb @ ap"
        using ap(1) rb(1) t0 pa by simp
      have la: "\<not> last (checks e (Fetched ?n ?f0 # rb))"
        using lc by simp
      show ?thesis
        apply (rule exI [of _ rb])
        apply (rule exI [of _ ap])
        using tr la ap(2-6) rb(2) True unfolding pa
        apply (simp, blast?)
        done
    qed
  qed
qed


lemma Patch_inspection:
  assumes "trace (snd (Patch e g repo image' platform container mounts s)) = trace s @ new"
    and "Ran (ImageInspect args) (Inr ip) \<in> set new"
    and "ip \<noteq> platform"
  shows "\<exists>rb. new = Fetched (Name (deployment g))
                       (fst (GetDeployment e (Name (deployment g)) (world s))) # rb
                  @ [Ran (ImageInspect [''-f'', ''{{.Os}}/{{.Architecture}}'', image']) (Inr ip)] \<and>
          (\<forall>ev \<in> set rb. rolling ev) \<and>
          (\<not> fst (isPatched e g s) \<longrightarrow> rb = []) \<and>
          fst (Patch e g repo image' platform container mounts s) =
            Inl (''Provided image '' @ quote e image' @ '' was built for platform ''
               @ quote e ip @ '', and configured platform is '' @ quote e platform
               @ '', please rebuild for correct platform'')"
proof -
  from Patch_run [of e g repo image' platform container mounts s]
  obtain rb ap where r:
    "trace (snd (Patch e g repo image' platform container mounts s)) =
       trace s @ Fetched (Name (deployment g))
                   (fst (GetDeployment e (Name (deployment g)) (world s))) # rb @ ap"
    "\<forall>ev \<in> set rb. rolling ev"
    "\<not> fst (isPatched e g s) \<longrightarrow> rb = []"
    "\<forall>args ip. Ran (ImageInspect args) (Inr ip) \<in> set ap \<and> ip \<noteq> platform \<longrightarrow>
        fst (Patch e g repo image' platform container mounts s) =
          Inl (''Provided image '' @ quote e image' @ '' was built for platform ''
             @ quote e ip @ '', and configured platform is '' @ quote e platform
             @ '', please rebuild for correct platform'') \<and>
        ap = [Ran (ImageInspect [''-f'', ''{{.Os}}/{{.Architecture}}'', image']) (Inr ip)]"
    by blast
  have new: "new = Fetched (Name (deployment g))
                   (fst (GetDeployment e (Name (deployment g)) (world s))) # rb @ ap"
    using assms(1) r(1) by simp
  have "Ran (ImageInspect args) (Inr ip) \<notin> set rb"
    using r(2) by force
  with assms(2) new have "Ran (ImageInspect args) (Inr ip) \<in> set ap"
    by simp
  with r(4) assms(3) have
    "fst (Patch e g repo image' platform container mounts s) =
          Inl (''Provided image '' @ quote e image' @ '' was built for platform ''
             @ quote e ip @ '', and configured platform is '' @ quote e platform
             @ '', please rebuild for correct platform'')"
    "ap = [Ran (ImageInspect [''-f'', ''{{.Os}}/{{.Architecture}}'', image']) (Inr ip)]"
    by blast+
  with new r(2,3) show ?thesis by blast
qed

text \<open>
  C5, as amended: when the image inspection reports a platform other than the declared one,
  \<open>Patch\<close> returns the error that quotes the image and both platforms, the inspection is the
  last call it makes, and it never asks for the creation of a snapshot. When the workload was
  not patched at the call, the fetch of the check and the inspection are its only calls, so
  nothing in the cluster is changed. (When the workload was patched, the rollback of the guard
  has run before the inspection.)
\<close>

theorem Patch_platform_mismatch:
  assumes "trace (snd (Patch e g repo image' platform container mounts s)) = trace s @ new"
    and "Ran (ImageInspect args) (Inr ip) \<in> set new"
    and "ip \<noteq> platform"
  shows "fst (Patch e g repo image' platform container mounts s) =
            Inl (''Provided image '' @ quote e image' @ '' was built for platform ''
               @ quote e ip @ '', and configured platform is '' @ quote e platform
               @ '', please rebuild for correct platform'') \<and>
         last new = Ran (ImageInspect [''-f'', ''{{.Os}}/{{.Architecture}}'', image']) (Inr ip) \<and>
         (\<forall>ev \<in> set new. \<not> creating ev) \<and>
         (\<not> fst (isPatched e g s) \<longrightarrow>
            new = [Fetched (Name (deployment g))
                     (fst (GetDeployment e (Name (deployment g)) (world s))),
                   Ran (ImageInspect [''-f'', ''{{.Os}}/{{.Architecture}}'', image']) (Inr ip)] \<and>
            (\<forall>ev \<in> set new. \<not> mutating ev))"
proof -
  from Patch_inspection [OF assms]
  obtain rb where r:
    "new = Fetched (Name (deployment g))
                       (fst (GetDeployment e (Name (deployment g)) (world s))) # rb
                  @ [Ran (ImageInspect [''-f'', ''{{.Os}}/{{.Architecture}}'', image']) (Inr ip)]"
    "\<forall>ev \<in> set rb. rolling ev"
    "\<not> fst (isPatched e g s) \<longrightarrow> rb = []"
    "fst (Patch e g repo image' platform container mounts s) =
            Inl (''Provided image '' @ quote e image' @ '' was built for platform ''
               @ quote e ip @ '', and configured platform is '' @ quote e platform
               @ '', please rebuild for correct platform'')"
    by blast
  have "\<forall>ev \<in> set rb. \<not> creating ev"
    using r(2) rolling_not by blast
  with r show ?thesis by simp
qed

theorem Patch_platform_mismatch_witness:
  "trace (snd (Patch kube api [] ''api:arm'' ''linux/amd64'' ''app'' [] (start fresh))) =
     trace (start fresh) @
       [Fetched ''api'' (Inr \<lparr>Name = ''api'', Namespace = ''default'', Annotations = [],
                               Containers = [''app'']\<rparr>),
        Ran (ImageInspect [''-f'', ''{{.Os}}/{{.Architecture}}'', ''api:arm'']) (Inr ''linux/arm64'')] \<and>
   fst (Patch kube api [] ''api:arm'' ''linux/amd64'' ''app'' [] (start fresh)) =
     Inl (''Provided image '' @ quote kube ''api:arm'' @ '' was built for platform ''
          @ quote kube ''linux/arm64'' @ '', and configured platform is ''
          @ quote kube ''linux/amd64'' @ '', please rebuild for correct platform'') \<and>
   snapshots (world (snd (Patch kube api [] ''api:arm'' ''linux/amd64'' ''app'' [] (start fresh))))
     ''api-patch'' = 0"
proof -
  let ?new = "[Fetched ''api'' (Inr \<lparr>Name = ''api'', Namespace = ''default'', Annotations = [],
                               Containers = [''app'']\<rparr>),
        Ran (ImageInspect [''-f'', ''{{.Os}}/{{.Architecture}}'', ''api:arm'']) (Inr ''linux/arm64'')]"
  have h1: "trace (snd (Patch kube api [] ''api:arm'' ''linux/amd64'' ''app'' [] (start fresh))) =
     trace (start fresh) @ ?new"
    by code_simp
  have h2: "Ran (ImageInspect [''-f'', ''{{.Os}}/{{.Architecture}}'', ''api:arm''])
              (Inr ''linux/arm64'') \<in> set ?new"
    by simp
  have h3: "''linux/arm64'' \<noteq> ''linux/amd64''"
    by simp
  have h4: "snapshots (world (snd (Patch kube api [] ''api:arm'' ''linux/amd64'' ''app'' []
              (start fresh)))) ''api-patch'' = 0"
    by code_simp
  from Patch_platform_mismatch [OF h1 h2 h3] h1 h4 show ?thesis
    by blast
qed

text \<open>
  C5, as stated, fails on a patched workload: the guard rolls back first, so the snapshot has
  been deleted and a revision undone when the mismatch is reported.
\<close>

theorem Patch_platform_mismatch_after_rollback:
  "Ran (ImageInspect [''-f'', ''{{.Os}}/{{.Architecture}}'', ''api:arm'']) (Inr ''linux/arm64'')
     \<in> set (trace (snd (Patch kube api [] ''api:arm'' ''linux/amd64'' ''app'' [] (start patched)))) \<and>
   ''linux/arm64'' \<noteq> ''linux/amd64'' \<and>
   Ran (DeleteConfigMap ''api-patch'') (Inr ''deleted'')
     \<in> set (trace (snd (Patch kube api [] ''api:arm'' ''linux/amd64'' ''app'' [] (start patched)))) \<and>
   Ran (RolloutUndo ''api'' 0) (Inr ''rolled back'')
     \<in> set (trace (snd (Patch kube api [] ''api:arm'' ''linux/amd64'' ''app'' [] (start patched)))) \<and>
   snapshots patched ''api-patch'' = 1 \<and>
   snapshots (world (snd (Patch kube api [] ''api:arm'' ''linux/amd64'' ''app'' [] (start patched))))
     ''api-patch'' = 0"
  by code_simp

text \<open>
  C7, as amended: \<open>Patch\<close> compares the platform string with the platform that the image
  inspection reports, not with the two values that \<open>PlatformSuggest\<close> offers. A build is
  issued only after the inspection has reported exactly the declared platform; so a platform
  outside the offered values is rejected, with the mismatch error and before any build,
  whenever the inspected image was built for one of the offered values.
\<close>

theorem Patch_builds_for_inspected_platform:
  assumes "trace (snd (Patch e g repo image' platform container mounts s)) = trace s @ new"
  shows "(\<forall>ev \<in> set new. building ev \<longrightarrow>
            Ran (ImageInspect [''-f'', ''{{.Os}}/{{.Architecture}}'', image']) (Inr platform)
              \<in> set new) \<and>
         (\<forall>args ip. Ran (ImageInspect args) (Inr ip) \<in> set new \<and>
            ip \<in> set PlatformSuggest \<and> platform \<notin> set PlatformSuggest \<longrightarrow>
            fst (Patch e g repo image' platform container mounts s) =
              Inl (''Provided image '' @ quote e image' @ '' was built for platform ''
                 @ quote e ip @ '', and configured platform is '' @ quote e platform
                 @ '', please rebuild for correct platform'') \<and>
            (\<forall>ev \<in> set new. \<not> building ev))"
proof (intro conjI allI impI ballI)
  fix ev
  assume ev: "ev \<in> set new" "building ev"
  from Patch_run [of e g repo image' platform container mounts s]
  obtain rb ap where r:
    "trace (snd (Patch e g repo image' platform container mounts s)) =
       trace s @ Fetched (Name (deployment g))
                   (fst (GetDeployment e (Name (deployment g)) (world s))) # rb @ ap"
    "\<forall>ev \<in> set rb. rolling ev"
    "\<forall>ev \<in> set ap. building ev \<longrightarrow>
        Ran (ImageInspect [''-f'', ''{{.Os}}/{{.Architecture}}'', image']) (Inr platform)
          \<in> set ap"
    by blast
  have new: "new = Fetched (Name (deployment g))
                   (fst (GetDeployment e (Name (deployment g)) (world s))) # rb @ ap"
    using assms r(1) by simp
  have "ev \<notin> set rb"
    using r(2) ev(2) rolling_not by blast
  with ev new have "ev \<in> set ap"
    by auto
  with r(3) ev(2) new
  show "Ran (ImageInspect [''-f'', ''{{.Os}}/{{.Architecture}}'', image']) (Inr platform)
          \<in> set new"
    by auto
next
  fix args ip
  assume a: "Ran (ImageInspect args) (Inr ip) \<in> set new \<and>
            ip \<in> set PlatformSuggest \<and> platform \<notin> set PlatformSuggest"
  then have ne: "ip \<noteq> platform" by blast
  from a have mem: "Ran (ImageInspect args) (Inr ip) \<in> set new" by blast
  from Patch_inspection [OF assms mem ne]
  show "fst (Patch e g repo image' platform container mounts s) =
              Inl (''Provided image '' @ quote e image' @ '' was built for platform ''
                 @ quote e ip @ '', and configured platform is '' @ quote e platform
                 @ '', please rebuild for correct platform'')"
    by blast
next
  fix args ip ev
  assume a: "Ran (ImageInspect args) (Inr ip) \<in> set new \<and>
            ip \<in> set PlatformSuggest \<and> platform \<notin> set PlatformSuggest"
    and ev: "ev \<in> set new"
  then have ne: "ip \<noteq> platform" by blast
  from a have mem: "Ran (ImageInspect args) (Inr ip) \<in> set new" by blast
  from Patch_inspection [OF assms mem ne]
  obtain rb where r:
    "new = Fetched (Name (deployment g))
                       (fst (GetDeployment e (Name (deployment g)) (world s))) # rb
                  @ [Ran (ImageInspect [''-f'', ''{{.Os}}/{{.Architecture}}'', image']) (Inr ip)]"
    "\<forall>ev \<in> set rb. rolling ev"
    by blast
  have "\<forall>ev \<in> set rb. \<not> building ev"
    using r(2) rolling_not by blast
  with r(1) ev show "\<not> building ev"
    by auto
qed

theorem Patch_builds_for_inspected_platform_witness:
  "trace (snd (Patch kube api [] ''api:1'' ''windows/amd64'' ''app'' [] (start fresh))) =
     trace (start fresh) @
       [Fetched ''api'' (Inr \<lparr>Name = ''api'', Namespace = ''default'', Annotations = [],
                               Containers = [''app'']\<rparr>),
        Ran (ImageInspect [''-f'', ''{{.Os}}/{{.Architecture}}'', ''api:1'']) (Inr ''linux/amd64'')] \<and>
   ''linux/amd64'' \<in> set PlatformSuggest \<and>
   ''windows/amd64'' \<notin> set PlatformSuggest \<and>
   fst (Patch kube api [] ''api:1'' ''windows/amd64'' ''app'' [] (start fresh)) =
     Inl (''Provided image '' @ quote kube ''api:1'' @ '' was built for platform ''
          @ quote kube ''linux/amd64'' @ '', and configured platform is ''
          @ quote kube ''windows/amd64'' @ '', please rebuild for correct platform'')"
proof -
  let ?new = "[Fetched ''api'' (Inr \<lparr>Name = ''api'', Namespace = ''default'', Annotations = [],
                               Containers = [''app'']\<rparr>),
        Ran (ImageInspect [''-f'', ''{{.Os}}/{{.Architecture}}'', ''api:1'']) (Inr ''linux/amd64'')]"
  have h1: "trace (snd (Patch kube api [] ''api:1'' ''windows/amd64'' ''app'' [] (start fresh))) =
     trace (start fresh) @ ?new"
    by code_simp
  have h2: "Ran (ImageInspect [''-f'', ''{{.Os}}/{{.Architecture}}'', ''api:1''])
              (Inr ''linux/amd64'') \<in> set ?new \<and>
            ''linux/amd64'' \<in> set PlatformSuggest \<and> ''windows/amd64'' \<notin> set PlatformSuggest"
    by (simp add: PlatformSuggest_def)
  from Patch_builds_for_inspected_platform [OF h1] h1 h2 show ?thesis
    by blast
qed

text \<open>
  C7, as stated, fails: a platform that \<open>PlatformSuggest\<close> does not offer goes through to the
  build when the image was built for it.
\<close>

theorem Patch_builds_for_unlisted_platform:
  "''windows/amd64'' \<notin> set PlatformSuggest \<and>
   fst (Patch kube api [] ''api:win'' ''windows/amd64'' ''app'' [] (start fresh)) = Inr () \<and>
   Ran (Build ''/tmp/the-hook''
          [''--build-arg'', ''IMAGE=api:win'', ''-t'', ''api-patch:latest'',
           ''--platform'', ''windows/amd64'']) (Inr ''built'')
     \<in> set (trace (snd (Patch kube api [] ''api:win'' ''windows/amd64'' ''app'' [] (start fresh))))"
  by code_simp

text \<open>
  C9: in a run of \<open>Patch\<close>, whatever its result, no call that follows the successful creation
  of the snapshot deletes a snapshot or undoes a revision: nothing that already ran is cleaned
  up, and the snapshot stays.
\<close>

theorem Patch_no_cleanup_after_snapshot:
  assumes "trace (snd (Patch e g repo image' platform container mounts s)) = trace s @ new"
  shows "\<forall>ev \<in> set (after_created new). \<not> cleanup ev"
proof -
  from Patch_run [of e g repo image' platform container mounts s]
  obtain rb ap where r:
    "trace (snd (Patch e g repo image' platform container mounts s)) =
       trace s @ Fetched (Name (deployment g))
                   (fst (GetDeployment e (Name (deployment g)) (world s))) # rb @ ap"
    "\<forall>ev \<in> set rb. rolling ev"
    "\<forall>ev \<in> set (after_created ap). \<not> cleanup ev"
    by blast
  have new: "new = (Fetched (Name (deployment g))
                   (fst (GetDeployment e (Name (deployment g)) (world s))) # rb) @ ap"
    using assms r(1) by simp
  have "\<forall>ev \<in> set (Fetched (Name (deployment g))
                   (fst (GetDeployment e (Name (deployment g)) (world s))) # rb). \<not> created ev"
    using r(2) rolling_not by auto
  then have "after_created new = after_created ap"
    unfolding new by (rule after_created_skip)
  with r(3) show ?thesis by simp
qed

theorem Patch_no_cleanup_after_snapshot_witness:
  "trace (snd (Patch kube api [] ''api:1'' ''linux/amd64'' ''app'' [] (start no_build))) =
     trace (start no_build) @
       [Fetched ''api'' (Inr \<lparr>Name = ''api'', Namespace = ''default'', Annotations = [],
                               Containers = [''app'']\<rparr>),
        Ran (ImageInspect [''-f'', ''{{.Os}}/{{.Architecture}}'', ''api:1'']) (Inr ''linux/amd64''),
        Ran (DeleteConfigMap ''api-patch'') (Inl ''configmap not found''),
        Ran (CreateConfigMap ''api-patch'' [(''deployment.json'', ''api'')]) (Inr ''created''),
        Ran (WaitForRollout ''api'' ''30s'') (Inr ''rolled out''),
        Ran (Build ''/tmp/the-hook''
               [''--build-arg'', ''IMAGE=api:1'', ''-t'', ''api-patch:latest'',
                ''--platform'', ''linux/amd64'']) (Inl ''forbidden'')] \<and>
   fst (Patch kube api [] ''api:1'' ''linux/amd64'' ''app'' [] (start no_build)) = Inl ''forbidden'' \<and>
   snapshots (world (snd (Patch kube api [] ''api:1'' ''linux/amd64'' ''app'' [] (start no_build))))
     ''api-patch'' = 1"
proof -
  let ?new = "[Fetched ''api'' (Inr \<lparr>Name = ''api'', Namespace = ''default'', Annotations = [],
                               Containers = [''app'']\<rparr>),
        Ran (ImageInspect [''-f'', ''{{.Os}}/{{.Architecture}}'', ''api:1'']) (Inr ''linux/amd64''),
        Ran (DeleteConfigMap ''api-patch'') (Inl ''configmap not found''),
        Ran (CreateConfigMap ''api-patch'' [(''deployment.json'', ''api'')]) (Inr ''created''),
        Ran (WaitForRollout ''api'' ''30s'') (Inr ''rolled out''),
        Ran (Build ''/tmp/the-hook''
               [''--build-arg'', ''IMAGE=api:1'', ''-t'', ''api-patch:latest'',
                ''--platform'', ''linux/amd64'']) (Inl ''forbidden'')]"
  have h1: "trace (snd (Patch kube api [] ''api:1'' ''linux/amd64'' ''app'' [] (start no_build))) =
     trace (start no_build) @ ?new"
    by code_simp
  have h2: "fst (Patch kube api [] ''api:1'' ''linux/amd64'' ''app'' [] (start no_build))
              = Inl ''forbidden'' \<and>
            snapshots (world (snd (Patch kube api [] ''api:1'' ''linux/amd64'' ''app'' []
              (start no_build)))) ''api-patch'' = 1"
    by code_simp
  from Patch_no_cleanup_after_snapshot [OF h1] h1 h2 show ?thesis
    by blast
qed

section \<open>The reply of a snapshot deletion\<close>

lemma deletion_replies_Run:
  "Run (deletion_replies r e) c w =
     (case c of DeleteConfigMap n \<Rightarrow> (r, snd (Run e c w)) | _ \<Rightarrow> Run e c w)"
  by (simp add: deletion_replies_def)

lemma deletion_replies_fields [simp]:
  "GetDeployment (deletion_replies r e) = GetDeployment e"
  "GetLatestRevision (deletion_replies r e) = GetLatestRevision e"
  "ValidateContainer (deletion_replies r e) = ValidateContainer e"
  "json_Marshal (deletion_replies r e) = json_Marshal e"
  "bindata_ReadFile (deletion_replies r e) = bindata_ReadFile e"
  "os_TempDir (deletion_replies r e) = os_TempDir e"
  "os_Mkdir (deletion_replies r e) = os_Mkdir e"
  "os_WriteFile (deletion_replies r e) = os_WriteFile e"
  "renderTemplate (deletion_replies r e) = renderTemplate e"
  "path_Join (deletion_replies r e) = path_Join e"
  "filepath_Join (deletion_replies r e) = filepath_Join e"
  "quote (deletion_replies r e) = quote e"
  "defaultPatchChangeCause (deletion_replies r e) = defaultPatchChangeCause e"
  "defaultPatchCreator (deletion_replies r e) = defaultPatchCreator e"
  "defaultConfigMapMount (deletion_replies r e) = defaultConfigMapMount e"
  "createdByAnnotation (deletion_replies r e) = createdByAnnotation e"
  "defaultConfigMapDeploymentKey (deletion_replies r e) = defaultConfigMapDeploymentKey e"
  "defaultConfigMapDeploymentSuffix (deletion_replies r e) = defaultConfigMapDeploymentSuffix e"
  "defaultWaitTimeout (deletion_replies r e) = defaultWaitTimeout e"
  "defaultTag (deletion_replies r e) = defaultTag e"
  "defaultPatchImageSuffix (deletion_replies r e) = defaultPatchImageSuffix e"
  "devDeploymentPatchFile (deletion_replies r e) = devDeploymentPatchFile e"
  by (simp_all add: deletion_replies_def)

lemma deletion_replies_derived [simp]:
  "DeploymentConfigMapName (deletion_replies r e) g = DeploymentConfigMapName e g"
  "marked (deletion_replies r e) d = marked e d"
  "theHookPath (deletion_replies r e) = theHookPath e"
  "patchedImageName (deletion_replies r e) g repo = patchedImageName e g repo"
  "newPatchValues (deletion_replies r e) = newPatchValues e"
  by (simp_all add: DeploymentConfigMapName_def marked_def theHookPath_def
      patchedImageName_def newPatchValues_def fun_eq_iff split: option.splits)

lemma deletion_replies_patched_reply [simp]:
  "patched_reply (deletion_replies r e) x = patched_reply e x"
  by (simp add: patched_reply_def split: sum.splits)

lemma snapshotDeployment_outcome:
  "world t = world s \<Longrightarrow>
   outcome (snapshotDeployment (deletion_replies r e) g image' platform t) =
   outcome (snapshotDeployment e g image' platform s)"
  by (simp add: outcome_def snapshotDeployment_def callRun_eq Let_def deletion_replies_Run
      split: sum.splits)

lemma extractPatchFiles_outcome:
  "world t = world s \<Longrightarrow>
   outcome (extractPatchFiles (deletion_replies r e) g t) = outcome (extractPatchFiles e g s)"
  by (simp add: outcome_def extractPatchFiles_def callRun_eq Let_def deletion_replies_Run
      split: sum.splits prod.splits)

lemma buildAndPatch_outcome:
  "world t = world s \<Longrightarrow>
   outcome (buildAndPatch (deletion_replies r e) g repo image' platform container mounts t) =
   outcome (buildAndPatch e g repo image' platform container mounts s)"
  by (simp add: outcome_def buildAndPatch_def callRun_eq Let_def deletion_replies_Run
      split: sum.splits)


lemma rollback_loop_outcome:
  "world t = world s \<Longrightarrow>
   outcome (rollback_loop (deletion_replies r e) g i t) = outcome (rollback_loop e g i s)"
proof (induction "nat (i + 1)" arbitrary: i s t)
  case 0
  then have "i < 0" by simp
  with 0 show ?case by (simp add: rollback_loop_exit outcome_def)
next
  case (Suc k)
  then have i0: "0 \<le> i" and k: "k = nat (i - 1 + 1)" by simp_all
  let ?e' = "deletion_replies r e"
  obtain rd w1 where d: "Run e (DeleteConfigMap (DeploymentConfigMapName e g)) (world s) = (rd, w1)"
    by (cases "Run e (DeleteConfigMap (DeploymentConfigMapName e g)) (world s)")
  obtain ru w2 where u: "Run e (RolloutUndo (Name (deployment g)) i) w1 = (ru, w2)"
    by (cases "Run e (RolloutUndo (Name (deployment g)) i) w1")
  obtain rf w3 where f: "GetDeployment e (Name (deployment g)) w2 = (rf, w3)"
    by (cases "GetDeployment e (Name (deployment g)) w2")
  obtain ra w4 where a:
    "Run e (UpdateChangeCause (Name (deployment g)) (''rollback to '' @ show_int i)) w3 = (ra, w4)"
    by (cases "Run e (UpdateChangeCause (Name (deployment g)) (''rollback to '' @ show_int i)) w3")
  have d': "Run ?e' (DeleteConfigMap (DeploymentConfigMapName ?e' g)) (world t) = (r, w1)"
    using d Suc.prems by (simp add: deletion_replies_Run)
  have u': "Run ?e' (RolloutUndo (Name (deployment g)) i) w1 = (ru, w2)"
    using u by (simp add: deletion_replies_Run)
  have f': "GetDeployment ?e' (Name (deployment g)) w2 = (rf, w3)"
    using f by simp
  have a': "Run ?e' (UpdateChangeCause (Name (deployment g)) (''rollback to '' @ show_int i)) w3
              = (ra, w4)"
    using a by (simp add: deletion_replies_Run)
  note step = rollback_loop_step [OF i0 d u f a]
  note step' = rollback_loop_step [OF i0 d' u' f' a']
  show ?case
  proof (cases ru)
    case (Inl err)
    then show ?thesis
      unfolding step step' by (simp add: outcome_def)
  next
    case (Inr out)
    show ?thesis
    proof (cases "patched_reply e rf")
      case False
      then show ?thesis
        unfolding step step' using Inr by (simp add: outcome_def)
    next
      case True
      then show ?thesis
        unfolding step step' using Inr
        by (simp del: deletion_replies_derived add: Suc.hyps(1) [OF k])
    qed
  qed
qed


lemma rollback_outcome:
  assumes "world t = world s"
  shows "outcome (rollback (deletion_replies r e) g t) = outcome (rollback e g s)"
proof (cases "fst (GetLatestRevision e (Name (deployment g)) (world s))")
  case (Inl err)
  with assms show ?thesis
    by (simp add: rollback_def callGetLatestRevision_eq outcome_def)
next
  case (Inr rev)
  with assms show ?thesis
    by (simp add: rollback_def callGetLatestRevision_eq rollback_loop_outcome)
qed

lemma Rollback_outcome:
  "outcome (Rollback (deletion_replies r e) g s) = outcome (Rollback e g s)"
proof (cases "fst (isPatched e g (logline Info ''rolling back'' s))")
  case False
  then show ?thesis
    by (simp add: Rollback_def isPatched_eq outcome_def)
next
  case True
  then show ?thesis
    by (simp add: Rollback_def isPatched_eq rollback_outcome)
qed

lemma applyPatch_outcome:
  assumes "world t = world s"
  shows "outcome (applyPatch (deletion_replies r e) g repo image' platform container mounts t) =
         outcome (applyPatch e g repo image' platform container mounts s)"
proof (cases "ValidateContainer e (deployment g) container")
  case (Inl err)
  with assms show ?thesis
    by (simp add: applyPatch_def outcome_def)
next
  case (Inr container')
  let ?e' = "deletion_replies r e"
  have o1: "outcome (snapshotDeployment ?e' g image' platform t) =
            outcome (snapshotDeployment e g image' platform s)"
    using assms by (rule snapshotDeployment_outcome)
  obtain r1 s1 where s1: "snapshotDeployment e g image' platform s = (r1, s1)"
    by (cases "snapshotDeployment e g image' platform s")
  obtain r1' t1 where t1: "snapshotDeployment ?e' g image' platform t = (r1', t1)"
    by (cases "snapshotDeployment ?e' g image' platform t")
  from o1 s1 t1 have e1: "r1' = r1" "world t1 = world s1"
    by (simp_all add: outcome_def)
  show ?thesis
  proof (cases r1)
    case (Inl err)
    with Inr s1 t1 e1 show ?thesis
      by (simp add: applyPatch_def outcome_def)
  next
    case u1: (Inr u1)
    have o2: "outcome (extractPatchFiles ?e' g t1) = outcome (extractPatchFiles e g s1)"
      using e1(2) by (rule extractPatchFiles_outcome)
    obtain r2 s2 where s2: "extractPatchFiles e g s1 = (r2, s2)"
      by (cases "extractPatchFiles e g s1")
    obtain r2' t2 where t2: "extractPatchFiles ?e' g t1 = (r2', t2)"
      by (cases "extractPatchFiles ?e' g t1")
    from o2 s2 t2 have e2: "r2' = r2" "world t2 = world s2"
      by (simp_all add: outcome_def)
    show ?thesis
    proof (cases r2)
      case (Inl err)
      with Inr u1 s1 t1 e1 s2 t2 e2 show ?thesis
        by (simp add: applyPatch_def outcome_def)
    next
      case u2: (Inr u2)
      with Inr u1 s1 t1 e1 s2 t2 e2 show ?thesis
        by (simp add: applyPatch_def buildAndPatch_outcome)
    qed
  qed
qed

lemma Patch_outcome:
  "outcome (Patch (deletion_replies r e) g repo image' platform container mounts s) =
   outcome (Patch e g repo image' platform container mounts s)"
proof -
  let ?e' = "deletion_replies r e"
  let ?s0 = "snd (isPatched e g s)"
  let ?t0 = "snd (isPatched ?e' g s)"
  have w0: "world ?t0 = world ?s0" and p0: "fst (isPatched ?e' g s) = fst (isPatched e g s)"
    by (simp_all add: isPatched_eq)
  show ?thesis
  proof (cases "fst (isPatched e g s)")
    case False
    then have "Patch e g repo image' platform container mounts s =
        applyPatch e g repo image' platform container mounts ?s0"
      by (auto simp add: Patch_def split: prod.splits bool.splits)
    moreover from False p0 have "Patch ?e' g repo image' platform container mounts s =
        applyPatch ?e' g repo image' platform container mounts ?t0"
      by (auto simp add: Patch_def split: prod.splits bool.splits)
    ultimately show ?thesis
      using w0 by (simp add: applyPatch_outcome)
  next
    case True
    let ?sw = "logline Warn ''deployment already patched, rolling back first'' ?s0"
    let ?tw = "logline Warn ''deployment already patched, rolling back first'' ?t0"
    have ww: "world ?tw = world ?sw"
      using w0 by simp
    have orb: "outcome (rollback ?e' g ?tw) = outcome (rollback e g ?sw)"
      using ww by (rule rollback_outcome)
    obtain rr s1 where s1: "rollback e g ?sw = (rr, s1)"
      by (cases "rollback e g ?sw")
    obtain rr' t1 where t1: "rollback ?e' g ?tw = (rr', t1)"
      by (cases "rollback ?e' g ?tw")
    from orb s1 t1 have e1: "rr' = rr" "world t1 = world s1"
      by (simp_all add: outcome_def)
    have pa: "Patch e g repo image' platform container mounts s =
        (case rr of Inl err \<Rightarrow> (Inl err, s1)
         | Inr u \<Rightarrow> applyPatch e g repo image' platform container mounts s1)"
      using True s1 by (auto simp add: Patch_def split: prod.splits bool.splits sum.splits)
    have pa': "Patch ?e' g repo image' platform container mounts s =
        (case rr of Inl err \<Rightarrow> (Inl err, t1)
         | Inr u \<Rightarrow> applyPatch ?e' g repo image' platform container mounts t1)"
      using True p0 t1 e1(1)
      by (auto simp add: Patch_def split: prod.splits bool.splits sum.splits)
    show ?thesis
      unfolding pa pa' using e1(2)
      by (cases rr) (simp_all add: applyPatch_outcome, simp add: outcome_def)
  qed
qed

lemma warnings_append [simp]: "warnings (xs @ ys) = warnings xs + warnings ys"
  by (simp add: warnings_def)

lemma failed_deletes_append [simp]:
  "failed_deletes (xs @ ys) = failed_deletes xs + failed_deletes ys"
  by (induction xs rule: failed_deletes.induct) simp_all

lemma warnings_iteration:
  "warnings (iteration_logs e g i rd) = (case rd of Inl err \<Rightarrow> 1 | Inr out \<Rightarrow> 0)"
  by (simp add: warnings_def iteration_logs_def split: sum.splits)

lemma rollback_loop_warnings:
  "\<exists>new nl. trace (snd (rollback_loop e g i s)) = trace s @ new \<and>
     logs (snd (rollback_loop e g i s)) = logs s @ nl \<and> warnings nl = failed_deletes new"
proof (rule rollback_loop_induct'
    [where P = "\<lambda>i s res s'. \<exists>new nl. trace s' = trace s @ new \<and>
     logs s' = logs s @ nl \<and> warnings nl = failed_deletes new"], goal_cases)
  case (1 i s)
  show ?case by (simp add: warnings_def)
next
  case (2 i s rd w1 err w2 s')
  have "warnings (iteration_logs e g i rd) =
      failed_deletes [Ran (DeleteConfigMap (DeploymentConfigMapName e g)) rd,
                      Ran (RolloutUndo (Name (deployment g)) i) (Inl err)]"
    by (simp add: warnings_iteration split: sum.splits)
  with 2 show ?case by blast
next
  case (3 i s rd w1 out w2 rf w3 ra w4 s')
  have "warnings (iteration_logs e g i rd) =
      failed_deletes [Ran (DeleteConfigMap (DeploymentConfigMapName e g)) rd,
                              Ran (RolloutUndo (Name (deployment g)) i) (Inr out),
                              Fetched (Name (deployment g)) rf,
                              Ran (UpdateChangeCause (Name (deployment g))
                                     (''rollback to '' @ show_int i)) ra]"
    by (simp add: warnings_iteration split: sum.splits)
  with 3 show ?case by blast
next
  case (4 i s rd w1 out w2 rf w3 s3 res s')
  from 4(9) obtain new nl where n: "trace s' = trace s3 @ new" "logs s' = logs s3 @ nl"
    "warnings nl = failed_deletes new"
    by blast
  let ?pre = "[Ran (DeleteConfigMap (DeploymentConfigMapName e g)) rd,
               Ran (RolloutUndo (Name (deployment g)) i) (Inr out),
               Fetched (Name (deployment g)) rf]"
  have "trace s' = trace s @ (?pre @ new)" "logs s' = logs s @ (iteration_logs e g i rd @ nl)"
    using n 4(7,8) by simp_all
  moreover have "warnings (iteration_logs e g i rd @ nl) = failed_deletes (?pre @ new)"
    using n(3) by (simp add: warnings_iteration split: sum.splits)
  ultimately show ?case by blast
qed

lemma Rollback_warnings:
  "\<exists>new nl. trace (snd (Rollback e g s)) = trace s @ new \<and>
     logs (snd (Rollback e g s)) = logs s @ nl \<and> warnings nl = failed_deletes new"
proof -
  let ?n = "Name (deployment g)"
  let ?f = "fst (GetDeployment e ?n (world s))"
  let ?s0 = "snd (isPatched e g (logline Info ''rolling back'' s))"
  have t0: "trace ?s0 = trace s @ [Fetched ?n ?f]" "logs ?s0 = logs s @ [(Info, ''rolling back'')]"
    by (simp_all add: isPatched_eq)
  have w0: "warnings [(Info, ''rolling back'')] = 0"
    by (simp add: warnings_def)
  show ?thesis
  proof (cases "fst (isPatched e g (logline Info ''rolling back'' s))")
    case False
    then have "Rollback e g s = (Inl ''deployment not patched, stopping rollback'', ?s0)"
      by (auto simp add: Rollback_def split: prod.splits bool.splits)
    with t0 w0 show ?thesis
      by (intro exI [of _ "[Fetched ?n ?f]"], intro exI [of _ "[(Info, ''rolling back'')]"]) simp
  next
    case True
    then have rb: "Rollback e g s = rollback e g ?s0"
      by (auto simp add: Rollback_def split: prod.splits bool.splits)
    let ?r = "fst (GetLatestRevision e ?n (world ?s0))"
    let ?s1 = "snd (callGetLatestRevision e ?n ?s0)"
    have t1: "trace ?s1 = trace s @ [Fetched ?n ?f, Revision ?n ?r]"
      "logs ?s1 = logs s @ [(Info, ''rolling back'')]"
      using t0 by (simp_all add: callGetLatestRevision_eq)
    show ?thesis
    proof (cases ?r)
      case (Inl err)
      then have "Rollback e g s = (Inl err, ?s1)"
        by (simp add: rb rollback_def callGetLatestRevision_eq)
      with t1 w0 show ?thesis
        by (intro exI [of _ "[Fetched ?n ?f, Revision ?n ?r]"],
            intro exI [of _ "[(Info, ''rolling back'')]"]) simp
    next
      case (Inr rev)
      then have lp: "Rollback e g s = rollback_loop e g (int_dec rev) ?s1"
        by (simp add: rb rollback_def callGetLatestRevision_eq)
      from rollback_loop_warnings [of e g "int_dec rev" ?s1]
      obtain new nl where n:
        "trace (snd (rollback_loop e g (int_dec rev) ?s1)) = trace ?s1 @ new"
        "logs (snd (rollback_loop e g (int_dec rev) ?s1)) = logs ?s1 @ nl"
        "warnings nl = failed_deletes new"
        by blast
      have "trace (snd (Rollback e g s)) = trace s @ ([Fetched ?n ?f, Revision ?n ?r] @ new)"
        "logs (snd (Rollback e g s)) = logs s @ ([(Info, ''rolling back'')] @ nl)"
        using n(1,2) t1 lp by simp_all
      moreover have "warnings ([(Info, ''rolling back'')] @ nl) =
          failed_deletes ([Fetched ?n ?f, Revision ?n ?r] @ new)"
        using n(3) by (simp add: warnings_def)
      ultimately show ?thesis by blast
    qed
  qed
qed

text \<open>
  C8: deleting the snapshot is best effort. Whatever the snapshot deletions reply, success or
  failure, \<open>Patch\<close> and \<open>Rollback\<close> return the same result and leave the same world: the
  reply of a deletion, in the guard's rollback, before the creation of the snapshot and in each
  iteration of the walk, decides nothing. And \<open>Rollback\<close> logs one warning for each deletion
  that failed, and goes on.
\<close>

theorem snapshot_deletion_is_best_effort:
  "outcome (Patch (deletion_replies r e) g repo image' platform container mounts s) =
     outcome (Patch e g repo image' platform container mounts s) \<and>
   outcome (Rollback (deletion_replies r e) g s) = outcome (Rollback e g s) \<and>
   (\<exists>new nl. trace (snd (Rollback e g s)) = trace s @ new \<and>
      logs (snd (Rollback e g s)) = logs s @ nl \<and> warnings nl = failed_deletes new)"
  using Patch_outcome [of r e g repo image' platform container mounts s]
    Rollback_outcome [of r e g s] Rollback_warnings [of e g s]
  by blast

theorem snapshot_deletion_is_best_effort_witness:
  "Ran (DeleteConfigMap ''api-patch'') (Inl ''configmap not found'')
     \<in> set (trace (snd (Patch kube api [] ''api:1'' ''linux/amd64'' ''app'' [] (start fresh)))) \<and>
   fst (Patch kube api [] ''api:1'' ''linux/amd64'' ''app'' [] (start fresh)) = Inr () \<and>
   outcome (Patch (deletion_replies (Inr ''deleted'') kube) api [] ''api:1'' ''linux/amd64''
              ''app'' [] (start fresh)) =
     outcome (Patch kube api [] ''api:1'' ''linux/amd64'' ''app'' [] (start fresh)) \<and>
   failed_deletes (trace (snd (Rollback kube api (start stacked)))) = 2 \<and>
   warnings (logs (snd (Rollback kube api (start stacked)))) = 2 \<and>
   fst (Rollback kube api (start stacked)) = Inr ()"
proof -
  have run: "Ran (DeleteConfigMap ''api-patch'') (Inl ''configmap not found'')
     \<in> set (trace (snd (Patch kube api [] ''api:1'' ''linux/amd64'' ''app'' [] (start fresh)))) \<and>
   fst (Patch kube api [] ''api:1'' ''linux/amd64'' ''app'' [] (start fresh)) = Inr () \<and>
   failed_deletes (trace (snd (Rollback kube api (start stacked)))) = 2 \<and>
   warnings (logs (snd (Rollback kube api (start stacked)))) = 2 \<and>
   fst (Rollback kube api (start stacked)) = Inr ()"
    by code_simp
  from snapshot_deletion_is_best_effort
    [of "Inr ''deleted''" kube api "[]" "''api:1''" "''linux/amd64''" "''app''" "[]" "start fresh"]
    run
  show ?thesis by blast
qed

section \<open>Patch and the patched state\<close>

lemma Patch_success:
  assumes "fst (Patch e g repo image' platform container mounts s) = Inr ()"
  shows "\<exists>s1. Patch e g repo image' platform container mounts s =
                applyPatch e g repo image' platform container mounts s1"
  using assms
  by (auto simp add: Patch_def split: prod.splits bool.splits sum.splits)

lemma applyPatch_success:
  assumes "fst (applyPatch e g repo image' platform container mounts s) = Inr ()"
  shows "\<exists>container' s5 s10.
           snapshotDeployment e g image' platform s = (Inr (), s5) \<and>
           extractPatchFiles e g s5 = (Inr (), s10) \<and>
           applyPatch e g repo image' platform container mounts s =
             buildAndPatch e g repo image' platform container' mounts s10"
  using assms
  by (auto simp add: applyPatch_def split: prod.splits sum.splits)

lemma Patch_marks:
  assumes c: "gateway_contract e"
    and ok: "fst (Patch e g repo image' platform container mounts s) = Inr ()"
  shows "fst (isPatched e g (snd (Patch e g repo image' platform container mounts s)))"
proof -
  from Patch_success [OF ok] obtain s1 where
    p: "Patch e g repo image' platform container mounts s =
          applyPatch e g repo image' platform container mounts s1"
    by blast
  with ok have "fst (applyPatch e g repo image' platform container mounts s1) = Inr ()"
    by simp
  from applyPatch_success [OF this] obtain container' s10 where
    a: "applyPatch e g repo image' platform container mounts s1 =
          buildAndPatch e g repo image' platform container' mounts s10"
    by blast
  with p ok have "fst (buildAndPatch e g repo image' platform container' mounts s10) = Inr ()"
    by simp
  from buildAndPatch_success [OF this] obtain p' w patch out where
    b: "renderTemplate e p'
          (newPatchValues e (Name (deployment g)) container'
             (patchedImageName e g repo @ '':'' @ defaultTag e) mounts) w = Inr patch"
       "fst (Run e (PatchDeployment patch (Name (deployment g))) w) = Inr out"
       "world (snd (buildAndPatch e g repo image' platform container' mounts s10)) =
          snd (Run e (PatchDeployment patch (Name (deployment g))) w)"
    by blast
  let ?w' = "snd (Run e (PatchDeployment patch (Name (deployment g))) w)"
  have run: "Run e (PatchDeployment patch (Name (deployment g))) w = (Inr out, ?w')"
    using b(2) by (simp add: prod_eq_iff)
  from c b(1) run obtain d where
    d: "fst (GetDeployment e (Name (deployment g)) ?w') = Inr d"
       "map_of (Annotations d) (createdByAnnotation e) =
          Some (CreatedBy (newPatchValues e (Name (deployment g)) container'
             (patchedImageName e g repo @ '':'' @ defaultTag e) mounts))"
    unfolding gateway_contract_def by blast
  have "marked e d"
    using d(2) by (simp add: marked_def newPatchValues_def)
  with d(1) b(3) p a show ?thesis
    by (simp add: isPatched_eq patched_reply_def)
qed

lemma rollback_loop_unmarks:
  assumes c: "gateway_contract e"
  shows "fst (rollback_loop e g i s) = Inr () \<longrightarrow>
         \<not> patched_reply e (fst (GetDeployment e (Name (deployment g))
                                   (world (snd (rollback_loop e g i s)))))"
proof (rule rollback_loop_induct'
    [where P = "\<lambda>i s res s'. res = Inr () \<longrightarrow>
         \<not> patched_reply e (fst (GetDeployment e (Name (deployment g)) (world s')))"], goal_cases)
  case (1 i s)
  show ?case by simp
next
  case (2 i s rd w1 err w2 s')
  show ?case by simp
next
  case (3 i s rd w1 out w2 rf w3 ra w4 s')
  show ?case
  proof
    assume "(case ra of Inl err \<Rightarrow> Inl err | Inr out' \<Rightarrow> Inr ()) = Inr ()"
    then obtain out' where ra: "ra = Inr out'"
      by (cases ra) simp_all
    have "w3 = w2"
      using c 3(4) unfolding gateway_contract_def by (metis snd_conv)
    with 3(4) have rf: "fst (GetDeployment e (Name (deployment g)) w3) = rf"
      by simp
    from c 3(6) ra have
      "patched_reply e (fst (GetDeployment e (Name (deployment g)) w4)) =
       patched_reply e (fst (GetDeployment e (Name (deployment g)) w3))"
      unfolding gateway_contract_def by blast
    with rf 3(5,7) show "\<not> patched_reply e (fst (GetDeployment e (Name (deployment g)) (world s')))"
      by simp
  qed
next
  case (4 i s rd w1 out w2 rf w3 s3 res s')
  then show ?case by simp
qed

lemma Rollback_unmarks:
  assumes c: "gateway_contract e"
    and ok: "fst (Rollback e g s) = Inr ()"
  shows "\<not> fst (isPatched e g (snd (Rollback e g s)))"
proof -
  let ?s0 = "snd (isPatched e g (logline Info ''rolling back'' s))"
  have pt: "fst (isPatched e g (logline Info ''rolling back'' s))"
    using ok by (auto simp add: Rollback_def split: prod.splits bool.splits)
  then have rb: "Rollback e g s = rollback e g ?s0"
    by (auto simp add: Rollback_def split: prod.splits bool.splits)
  from ok rb obtain rev where
    lp: "Rollback e g s = rollback_loop e g (int_dec rev) (snd (callGetLatestRevision e (Name (deployment g)) ?s0))"
    by (auto simp add: rollback_def split: prod.splits sum.splits)
  from rollback_loop_unmarks [OF c, of g "int_dec rev" "snd (callGetLatestRevision e (Name (deployment g)) ?s0)"] ok lp
  show ?thesis
    by (simp add: isPatched_eq)
qed

text \<open>
  C1: on a gateway that keeps its contract, \<open>isPatched\<close> answers true right after a \<open>Patch\<close>
  that returned success, and false right after a \<open>Rollback\<close> that returned success.
\<close>

theorem patched_after_Patch_and_not_after_Rollback:
  assumes "gateway_contract e"
  shows "(fst (Patch e g repo image' platform container mounts s) = Inr () \<longrightarrow>
            fst (isPatched e g (snd (Patch e g repo image' platform container mounts s)))) \<and>
         (fst (Rollback e g s) = Inr () \<longrightarrow>
            \<not> fst (isPatched e g (snd (Rollback e g s))))"
  using assms Patch_marks Rollback_unmarks by blast

lemma kube_contract: "gateway_contract kube"
  unfolding gateway_contract_def
proof (intro conjI allI impI)
  fix n w
  show "snd (GetDeployment kube n w) = w"
    by (simp add: kube_GetDeployment_def split: option.splits)
next
  fix p v w patch n out w'
  assume r: "renderTemplate kube p v w = Inr patch"
    and a: "Run kube (PatchDeployment patch n) w = (Inr out, w')"
  from r have patch: "patch = CreatedBy v"
    by (simp add: kube_renderTemplate_def split: option.splits)
  from a obtain wl where wl: "workloads w n = Some wl"
    and w': "w' = w\<lparr>workloads := (workloads w)(n \<mapsto>
                        wl\<lparr>template := set_annotation markerKey patch (template wl),
                           history :=
                             history wl @ [set_annotation markerKey patch (template wl)]\<rparr>)\<rparr>"
    by (auto simp add: kube_Run_def split: if_splits option.splits)
  show "\<exists>d. fst (GetDeployment kube n w') = Inr d \<and>
           map_of (Annotations d) (createdByAnnotation kube) = Some (CreatedBy v)"
    using wl w' patch by (simp add: kube_GetDeployment_def set_annotation_def)
next
  fix n c w out w'
  assume a: "Run kube (UpdateChangeCause n c) w = (Inr out, w')"
  then obtain wl where wl: "workloads w n = Some wl"
    and w': "w' = w\<lparr>workloads := (workloads w)(n \<mapsto> wl\<lparr>changeCause := c\<rparr>)\<rparr>"
    by (auto simp add: kube_Run_def split: if_splits option.splits)
  show "patched_reply kube (fst (GetDeployment kube n w')) =
        patched_reply kube (fst (GetDeployment kube n w))"
    using wl w' by (simp add: kube_GetDeployment_def patched_reply_def marked_def)
qed

theorem patched_after_Patch_and_not_after_Rollback_witness:
  "gateway_contract kube \<and>
   fst (Patch kube api [] ''api:1'' ''linux/amd64'' ''app'' [] (start fresh)) = Inr () \<and>
   fst (isPatched kube api (snd (Patch kube api [] ''api:1'' ''linux/amd64'' ''app'' []
                                   (start fresh)))) \<and>
   fst (Rollback kube api (start patched)) = Inr () \<and>
   \<not> fst (isPatched kube api (snd (Rollback kube api (start patched))))"
proof -
  have run: "fst (Patch kube api [] ''api:1'' ''linux/amd64'' ''app'' [] (start fresh)) = Inr () \<and>
             fst (Rollback kube api (start patched)) = Inr ()"
    by code_simp
  from patched_after_Patch_and_not_after_Rollback [OF kube_contract,
      of api "[]" "''api:1''" "''linux/amd64''" "''app''" "[]" "start fresh"]
    patched_after_Patch_and_not_after_Rollback [OF kube_contract, of api _ _ _ _ _ "start patched"]
    run kube_contract
  show ?thesis by blast
qed

lemma kube_Run_Create:
  assumes "fst (kube_Run (CreateConfigMap n d) w) = Inr out"
  shows "snapshots (snd (kube_Run (CreateConfigMap n d) w)) n = 1"
proof -
  from assms have "n \<notin> fst ` set (configmaps w)" and "\<not> denied w (CreateConfigMap n d)"
    by (auto simp add: kube_Run_def split: if_splits)
  moreover from this(1) have "filter (\<lambda>obj. fst obj = n) (configmaps w) = []"
    by (auto simp add: filter_empty_conv)
  ultimately show ?thesis
    by (simp add: kube_Run_def snapshots_def)
qed

lemma kube_snapshot:
  assumes "snapshotDeployment kube g image' platform s = (Inr (), s')"
  shows "snapshots (world s') (DeploymentConfigMapName kube g) = 1"
proof -
  from snapshotDeployment_run [OF assms]
  obtain out bs w where
    "fst (Run kube (CreateConfigMap (DeploymentConfigMapName kube g)
                 [(defaultConfigMapDeploymentKey kube, bs)]) w) = Inr out"
    "world s' = snd (Run kube (CreateConfigMap (DeploymentConfigMapName kube g)
                 [(defaultConfigMapDeploymentKey kube, bs)]) w)"
    by auto
  then show ?thesis
    using kube_Run_Create [of "DeploymentConfigMapName kube g" _ w out] by simp
qed

lemma kube_Run_configmaps:
  "configmaps (snd (kube_Run (WaitForRollout n t) w)) = configmaps w"
  "configmaps (snd (kube_Run (Build dir args) w)) = configmaps w"
  "configmaps (snd (kube_Run (Push img tag) w)) = configmaps w"
  "configmaps (snd (kube_Run (PatchDeployment patch n) w)) = configmaps w"
  by (simp_all add: kube_Run_def split: option.splits list.splits)

lemma kube_extract:
  "configmaps (world (snd (extractPatchFiles kube g s))) = configmaps (world s)"
  by (simp add: extractPatchFiles_def callRun_eq Let_def kube_Run_configmaps kube_WriteFile_def
      split: sum.splits prod.splits)

lemma kube_Run_Patch:
  assumes "fst (kube_Run (PatchDeployment patch n) w) = Inr out"
  shows "markers (snd (kube_Run (PatchDeployment patch n) w)) n = 1"
  using assms
  by (auto simp add: kube_Run_def markers_def set_annotation_def filter_empty_conv
      split: if_splits option.splits)

lemma kube_build_configmaps:
  "configmaps (world (snd (buildAndPatch kube g repo image' platform container mounts s))) =
     configmaps (world s)"
  by (simp add: buildAndPatch_def callRun_eq Let_def kube_Run_configmaps
      split: sum.splits prod.splits)

lemma kube_build_markers:
  assumes "fst (buildAndPatch kube g repo image' platform container mounts s) = Inr ()"
  shows "markers (world (snd (buildAndPatch kube g repo image' platform container mounts s)))
           (Name (deployment g)) = 1"
proof -
  from buildAndPatch_success [OF assms] obtain w patch out where
    "fst (Run kube (PatchDeployment patch (Name (deployment g))) w) = Inr out"
    "world (snd (buildAndPatch kube g repo image' platform container mounts s)) =
       snd (Run kube (PatchDeployment patch (Name (deployment g))) w)"
    by blast
  then show ?thesis
    using kube_Run_Patch [of patch "Name (deployment g)" w out] by simp
qed

lemma kube_Patch_shape:
  assumes "fst (Patch kube g repo image' platform container mounts s) = Inr ()"
  shows "snapshots (world (snd (Patch kube g repo image' platform container mounts s)))
           (DeploymentConfigMapName kube g) = 1 \<and>
         markers (world (snd (Patch kube g repo image' platform container mounts s)))
           (Name (deployment g)) = 1"
proof -
  from Patch_success [OF assms] obtain s1 where
    p: "Patch kube g repo image' platform container mounts s =
          applyPatch kube g repo image' platform container mounts s1"
    by blast
  with assms have "fst (applyPatch kube g repo image' platform container mounts s1) = Inr ()"
    by simp
  from applyPatch_success [OF this] obtain container' s5 s10 where
    a: "snapshotDeployment kube g image' platform s1 = (Inr (), s5)"
       "extractPatchFiles kube g s5 = (Inr (), s10)"
       "applyPatch kube g repo image' platform container mounts s1 =
          buildAndPatch kube g repo image' platform container' mounts s10"
    by blast
  let ?s' = "snd (buildAndPatch kube g repo image' platform container' mounts s10)"
  have ok: "fst (buildAndPatch kube g repo image' platform container' mounts s10) = Inr ()"
    using p a(3) assms by simp
  have "configmaps (world ?s') = configmaps (world s10)"
    by (rule kube_build_configmaps)
  also have "\<dots> = configmaps (world s5)"
    using kube_extract [of g s5] a(2) by simp
  finally have "snapshots (world ?s') (DeploymentConfigMapName kube g) =
      snapshots (world s5) (DeploymentConfigMapName kube g)"
    by (simp add: snapshots_def)
  with kube_snapshot [OF a(1)] kube_build_markers [OF ok] p a(3) show ?thesis
    by simp
qed

text \<open>
  C2: when the workload is patched at the call, \<open>Patch\<close> first runs the whole rollback; when
  the rollback fails, \<open>Patch\<close> returns its error and the state it left, and does nothing
  else; when it succeeds, what follows is exactly what \<open>Patch\<close> does on an unpatched workload.
  In every run, a patch is applied only when the last check of the patched state answered "not
  patched". And in the reference cluster, after a \<open>Patch\<close> and a second \<open>Patch\<close> on the
  same workload that both returned success, there is exactly one snapshot object and exactly one
  marker annotation, as after the first.
\<close>

theorem Patch_rolls_back_first:
  "(fst (isPatched e g s) \<longrightarrow>
      (\<forall>err. fst (rollback e g (logline Warn ''deployment already patched, rolling back first''
                                 (snd (isPatched e g s)))) = Inl err \<longrightarrow>
         Patch e g repo image' platform container mounts s =
           (Inl err, snd (rollback e g (logline Warn
              ''deployment already patched, rolling back first'' (snd (isPatched e g s)))))) \<and>
      (fst (rollback e g (logline Warn ''deployment already patched, rolling back first''
                                 (snd (isPatched e g s)))) = Inr () \<longrightarrow>
         Patch e g repo image' platform container mounts s =
           applyPatch e g repo image' platform container mounts
             (snd (rollback e g (logline Warn
                ''deployment already patched, rolling back first'' (snd (isPatched e g s))))))) \<and>
   (\<forall>new. trace (snd (Patch e g repo image' platform container mounts s)) = trace s @ new \<longrightarrow>
      (\<forall>ev \<in> set new. applying ev \<longrightarrow> checks e new \<noteq> [] \<and> \<not> last (checks e new))) \<and>
   (fst (Patch kube k repo1 image1 platform1 container1 mounts1 t) = Inr () \<longrightarrow>
    fst (Patch kube k' repo2 image2 platform2 container2 mounts2
           (snd (Patch kube k repo1 image1 platform1 container1 mounts1 t))) = Inr () \<longrightarrow>
    Name (deployment k') = Name (deployment k) \<longrightarrow>
      snapshots (world (snd (Patch kube k repo1 image1 platform1 container1 mounts1 t)))
        (DeploymentConfigMapName kube k) = 1 \<and>
      markers (world (snd (Patch kube k repo1 image1 platform1 container1 mounts1 t)))
        (Name (deployment k)) = 1 \<and>
      snapshots (world (snd (Patch kube k' repo2 image2 platform2 container2 mounts2
           (snd (Patch kube k repo1 image1 platform1 container1 mounts1 t)))))
        (DeploymentConfigMapName kube k) = 1 \<and>
      markers (world (snd (Patch kube k' repo2 image2 platform2 container2 mounts2
           (snd (Patch kube k repo1 image1 platform1 container1 mounts1 t)))))
        (Name (deployment k)) = 1)"
proof (intro conjI impI allI ballI)
  fix err
  assume "fst (isPatched e g s)"
    and "fst (rollback e g (logline Warn ''deployment already patched, rolling back first''
                                 (snd (isPatched e g s)))) = Inl err"
  then show "Patch e g repo image' platform container mounts s =
           (Inl err, snd (rollback e g (logline Warn
              ''deployment already patched, rolling back first'' (snd (isPatched e g s)))))"
    by (auto simp add: Patch_def split: prod.splits bool.splits sum.splits)
next
  assume "fst (isPatched e g s)"
    and "fst (rollback e g (logline Warn ''deployment already patched, rolling back first''
                                 (snd (isPatched e g s)))) = Inr ()"
  then show "Patch e g repo image' platform container mounts s =
           applyPatch e g repo image' platform container mounts
             (snd (rollback e g (logline Warn
                ''deployment already patched, rolling back first'' (snd (isPatched e g s)))))"
    by (auto simp add: Patch_def split: prod.splits bool.splits sum.splits)
next
  fix new ev
  assume tr: "trace (snd (Patch e g repo image' platform container mounts s)) = trace s @ new"
    and ev: "ev \<in> set new" "applying ev"
  from Patch_run [of e g repo image' platform container mounts s]
  obtain rb ap where r:
    "trace (snd (Patch e g repo image' platform container mounts s)) =
       trace s @ Fetched (Name (deployment g))
                   (fst (GetDeployment e (Name (deployment g)) (world s))) # rb @ ap"
    "\<forall>ev \<in> set rb. rolling ev"
    "ap \<noteq> [] \<longrightarrow>
        \<not> last (checks e (Fetched (Name (deployment g))
                   (fst (GetDeployment e (Name (deployment g)) (world s))) # rb))"
    "checks e ap = []"
    by blast
  have new: "new = Fetched (Name (deployment g))
                   (fst (GetDeployment e (Name (deployment g)) (world s))) # rb @ ap"
    using tr r(1) by simp
  have "ev \<notin> set rb"
    using r(2) ev(2) rolling_not by blast
  with ev new have "ev \<in> set ap" by auto
  then have "ap \<noteq> []" by auto
  with r(3) have "\<not> last (checks e (Fetched (Name (deployment g))
                   (fst (GetDeployment e (Name (deployment g)) (world s))) # rb))"
    by blast
  moreover have "checks e new = checks e (Fetched (Name (deployment g))
                   (fst (GetDeployment e (Name (deployment g)) (world s))) # rb)"
    using new r(4) by simp
  ultimately show "checks e new \<noteq> []" and "\<not> last (checks e new)"
    by simp_all
next
  assume a: "fst (Patch kube k repo1 image1 platform1 container1 mounts1 t) = Inr ()"
  from kube_Patch_shape [OF a]
  show "snapshots (world (snd (Patch kube k repo1 image1 platform1 container1 mounts1 t)))
        (DeploymentConfigMapName kube k) = 1"
    and "markers (world (snd (Patch kube k repo1 image1 platform1 container1 mounts1 t)))
        (Name (deployment k)) = 1"
    by simp_all
next
  assume b: "fst (Patch kube k' repo2 image2 platform2 container2 mounts2
           (snd (Patch kube k repo1 image1 platform1 container1 mounts1 t))) = Inr ()"
    and n: "Name (deployment k') = Name (deployment k)"
  from n have cm: "DeploymentConfigMapName kube k' = DeploymentConfigMapName kube k"
    by (simp add: DeploymentConfigMapName_def)
  from kube_Patch_shape [OF b] n cm
  show "snapshots (world (snd (Patch kube k' repo2 image2 platform2 container2 mounts2
           (snd (Patch kube k repo1 image1 platform1 container1 mounts1 t)))))
        (DeploymentConfigMapName kube k) = 1"
    and "markers (world (snd (Patch kube k' repo2 image2 platform2 container2 mounts2
           (snd (Patch kube k repo1 image1 platform1 container1 mounts1 t)))))
        (Name (deployment k)) = 1"
    by simp_all
qed


theorem Patch_rolls_back_first_witness:
  "fst (isPatched kube api (start stuck)) \<and>
   fst (rollback kube api (logline Warn ''deployment already patched, rolling back first''
                             (snd (isPatched kube api (start stuck))))) =
     Inl ''couldnt rollback deployment api into unpatched state'' \<and>
   Patch kube api [] ''api:1'' ''linux/amd64'' ''app'' [] (start stuck) =
     (Inl ''couldnt rollback deployment api into unpatched state'',
      snd (rollback kube api (logline Warn ''deployment already patched, rolling back first''
                                (snd (isPatched kube api (start stuck)))))) \<and>
   fst (Patch kube api [] ''api:1'' ''linux/amd64'' ''app'' [] (start fresh)) = Inr () \<and>
   fst (Patch kube api [] ''api:1'' ''linux/amd64'' ''app'' []
          (snd (Patch kube api [] ''api:1'' ''linux/amd64'' ''app'' [] (start fresh)))) = Inr () \<and>
   snapshots (world (snd (Patch kube api [] ''api:1'' ''linux/amd64'' ''app'' []
          (snd (Patch kube api [] ''api:1'' ''linux/amd64'' ''app'' [] (start fresh))))))
     (DeploymentConfigMapName kube api) = 1 \<and>
   markers (world (snd (Patch kube api [] ''api:1'' ''linux/amd64'' ''app'' []
          (snd (Patch kube api [] ''api:1'' ''linux/amd64'' ''app'' [] (start fresh))))))
     (Name (deployment api)) = 1"
proof -
  have h1: "fst (isPatched kube api (start stuck))"
    by code_simp
  have h2: "fst (rollback kube api (logline Warn ''deployment already patched, rolling back first''
                             (snd (isPatched kube api (start stuck))))) =
     Inl ''couldnt rollback deployment api into unpatched state''"
    by code_simp
  have h3: "fst (Patch kube api [] ''api:1'' ''linux/amd64'' ''app'' [] (start fresh)) = Inr ()"
    by code_simp
  have h4: "fst (Patch kube api [] ''api:1'' ''linux/amd64'' ''app'' []
          (snd (Patch kube api [] ''api:1'' ''linux/amd64'' ''app'' [] (start fresh)))) = Inr ()"
    by code_simp
  from Patch_rolls_back_first [of kube api "start stuck" "[]" "''api:1''" "''linux/amd64''"
      "''app''" "[]" api "[]" "''api:1''" "''linux/amd64''" "''app''" "[]" "start fresh"
      api "[]" "''api:1''" "''linux/amd64''" "''app''" "[]"]
    h1 h2 h3 h4
  show ?thesis by blast
qed

end
